theory Spec2Isabelle
  imports Main "HOL-Library.Word" "HOL-Library.Sublist"
begin

unbundle bit_operations_syntax

section \<open>The package reload: data and environment\<close>

text \<open>
  The Go package \<^verbatim>\<open>reload\<close> (file \<^verbatim>\<open>reload.go\<close>) restarts the running process when
  its binary changes and runs callbacks when watched directories change. The model is a
  shallow embedding: the package variables and the observable effects are fields of a
  record \<open>world\<close> that every function takes and returns; the operating system and the
  libraries the package calls (\<^verbatim>\<open>os\<close>, \<^verbatim>\<open>path/filepath\<close>, \<^verbatim>\<open>runtime\<close>, \<^verbatim>\<open>syscall\<close>,
  \<^verbatim>\<open>fsnotify\<close>) are a record \<open>os_env\<close> of their answers.
\<close>

subsection \<open>Functions stored in variables\<close>

text \<open>
  \<^verbatim>\<open>RestartExec func()\<close> and the field \<^verbatim>\<open>cb func()\<close> hold functions. A function value is
  \<^verbatim>\<open>reload.Exec\<close> itself (what \<^verbatim>\<open>init\<close> stores in \<^verbatim>\<open>RestartExec\<close>, and what the comment
  of \<^verbatim>\<open>Dir\<close> recommends as a callback), a function of the caller, named, that returns
  to its caller and leaves the package variables alone, or \<^verbatim>\<open>nil\<close>.
\<close>

datatype action = ActExec | ActUser string | ActNil

fun is_user :: "action \<Rightarrow> bool" where
  "is_user (ActUser f) = True"
| "is_user ActExec = False"
| "is_user ActNil = False"

text \<open>\<^verbatim>\<open>type dir struct { path string; cb func() }\<close>\<close>

record dir =
  path :: string
  cb :: action

text \<open>\<^verbatim>\<open>func Dir(path string, cb func()) dir { return dir{path, cb} }\<close>\<close>

definition Dir :: "string \<Rightarrow> action \<Rightarrow> dir" where
  "Dir p c = \<lparr>path = p, cb = c\<rparr>"

subsection \<open>fsnotify events\<close>

text \<open>
  \<^verbatim>\<open>fsnotify.Event\<close> has a \<^verbatim>\<open>Name\<close> and an \<^verbatim>\<open>Op\<close>; \<^verbatim>\<open>Op\<close> is a \<^verbatim>\<open>uint32\<close> bit set. The
  bits are the library's (\<^verbatim>\<open>Create Op = 1 << iota\<close>, then \<^verbatim>\<open>Write\<close>, \<^verbatim>\<open>Remove\<close>,
  \<^verbatim>\<open>Rename\<close>, \<^verbatim>\<open>Chmod\<close>).
\<close>

type_synonym Op = "32 word"

definition Create :: Op where "Create = 1"
definition Write :: Op where "Write = 2"
definition Remove :: Op where "Remove = 4"
definition Rename :: Op where "Rename = 8"
definition Chmod :: Op where "Chmod = 16"

record event =
  Name :: string
  Op :: Op

text \<open>What the goroutine's \<^verbatim>\<open>select\<close> receives: an error or an event.\<close>

datatype notification = WatcherError string | WatcherEvent event

subsection \<open>Errors, panics, effects\<close>

text \<open>The errors \<^verbatim>\<open>Do\<close> and \<^verbatim>\<open>self\<close> build with \<^verbatim>\<open>fmt.Errorf\<close>, with the path they quote.\<close>

datatype error =
    CannotSetupWatcher
  | CannotGetPathToBinary string
  | CannotGetAbsolutePath string
  | StatFailed string
  | NotADirectory string
  | CannotAddToWatcher string

datatype panic =
    CannotFindSelf
  | CannotRestart
  | IndexOutOfRange
  | NilFunc

datatype 'a result = Ok 'a | Err error | Panic panic

text \<open>The three calls of \<^verbatim>\<open>log\<close>, by format string.\<close>

datatype log_msg =
    ReloadError string
  | UntestedGOOS string
  | Restarting string "string list"

text \<open>What the package does to the outside, in the order it does it.\<close>

datatype effect =
    Log log_msg
  | Sleep nat
  | InvokeRestart
  | InvokeCallback dir
  | WatcherClose nat
  | SyscallExec string "string list" "string list"

text \<open>
  How a call ends: it returns, or the process image is replaced (\<^verbatim>\<open>syscall.Exec\<close>
  succeeded: binary, argv, environment), or the process dies in a panic.
\<close>

datatype status =
    Returned
  | Replaced string "string list" "string list"
  | Panicked panic

subsection \<open>The environment\<close>

text \<open>
  The answers of the operating system and of the libraries: \<^verbatim>\<open>runtime.GOOS\<close>,
  \<^verbatim>\<open>os.Args\<close>, \<^verbatim>\<open>os.Environ()\<close>, \<^verbatim>\<open>os.Executable()\<close> and \<^verbatim>\<open>os.Getwd()\<close> (\<open>None\<close> is
  an error), \<^verbatim>\<open>filepath.IsAbs\<close>, \<^verbatim>\<open>filepath.Abs\<close> (\<open>None\<close> is an error),
  \<^verbatim>\<open>filepath.Dir\<close>, \<^verbatim>\<open>os.Stat\<close> (\<open>None\<close> is an error, \<open>Some b\<close> a file whose \<^verbatim>\<open>IsDir()\<close> is
  \<open>b\<close>), whether \<^verbatim>\<open>fsnotify.NewWatcher\<close> succeeds, whether \<^verbatim>\<open>watcher.Add\<close> of a
  directory succeeds, whether \<^verbatim>\<open>syscall.Exec\<close> of a binary succeeds.
\<close>

record os_env =
  goos :: string
  args :: "string list"
  environ :: "string list"
  executable :: "string option"
  getwd :: "string option"
  is_abs :: "string \<Rightarrow> bool"
  abs_path :: "string \<Rightarrow> string option"
  path_dir :: "string \<Rightarrow> string"
  stat :: "string \<Rightarrow> bool option"
  new_watcher_ok :: bool
  watcher_add_ok :: "string \<Rightarrow> bool"
  syscall_exec_ok :: "string \<Rightarrow> bool"

subsection \<open>The package variables and the process\<close>

text \<open>
  \<open>binSelf\<close>, \<open>closeWatcher\<close> and \<open>RestartExec\<close> are the package variables
  (\<open>closeWatcher\<close> is \<^verbatim>\<open>nil\<close> or the \<^verbatim>\<open>Close\<close> method of a watcher, named by its number).
  The rest is what the process holds: how many watchers were created, which are open,
  which directories each watches, which event loops (goroutines) run, each with its
  watcher and the \<^verbatim>\<open>additional\<close> slice it captured, and the effects so far.
\<close>

record world =
  binSelf :: string
  closeWatcher :: "nat option"
  RestartExec :: action
  watchers :: nat
  open_watchers :: "nat list"
  watched :: "(nat \<times> string) list"
  loops :: "(nat \<times> dir list) list"
  trace :: "effect list"

text \<open>The process right after \<^verbatim>\<open>init\<close>: \<^verbatim>\<open>RestartExec = Exec\<close>, everything else zero.\<close>

definition init_world :: world where
  "init_world = \<lparr>binSelf = [], closeWatcher = None, RestartExec = ActExec, watchers = 0,
     open_watchers = [], watched = [], loops = [], trace = []\<rparr>"

definition emit :: "effect list \<Rightarrow> world \<Rightarrow> world" where
  "emit es w = w\<lparr>trace := trace w @ es\<rparr>"

text \<open>\<^verbatim>\<open>watcher.Close()\<close>: the handle is closed and its watches are gone.\<close>

definition close_watcher :: "nat \<Rightarrow> world \<Rightarrow> world" where
  "close_watcher wid w =
     emit [WatcherClose wid]
       (w\<lparr>open_watchers := removeAll wid (open_watchers w),
          watched := filter (\<lambda>(i, d). i \<noteq> wid) (watched w)\<rparr>)"

section \<open>The functions of reload.go\<close>

subsection \<open>self\<close>

text \<open>
  \<^verbatim>\<open>bin := os.Args[0]\<close> panics on an empty \<^verbatim>\<open>os.Args\<close>; an absolute \<^verbatim>\<open>bin\<close> is the
  answer; otherwise \<^verbatim>\<open>os.Executable()\<close>, whose error is returned wrapped.
\<close>

definition self :: "os_env \<Rightarrow> string result" where
  "self os =
     (case args os of
        [] \<Rightarrow> Panic IndexOutOfRange
      | bin # _ \<Rightarrow>
          if \<not> is_abs os bin then
            (case executable os of
               None \<Rightarrow> Err (CannotGetPathToBinary bin)
             | Some p \<Rightarrow> Ok p)
          else Ok bin)"

subsection \<open>relpath\<close>

text \<open>
  \<^verbatim>\<open>strings.TrimLeft(p[len(cwd):], "/")\<close> drops the prefix and then every leading slash.
\<close>

definition relpath :: "os_env \<Rightarrow> string \<Rightarrow> string" where
  "relpath os p =
     (case getwd os of
        None \<Rightarrow> p
      | Some cwd \<Rightarrow>
          if prefix cwd p
          then ''./'' @ dropWhile (\<lambda>c. c = CHR ''/'') (drop (length cwd) p)
          else p)"

subsection \<open>Exec\<close>

text \<open>
  \<^verbatim>\<open>Exec\<close> takes \<open>binSelf\<close>, or \<^verbatim>\<open>self()\<close> when \<open>binSelf\<close> is empty (panic on its
  error); calls \<open>closeWatcher\<close> when it is not \<^verbatim>\<open>nil\<close>; evaluates \<^verbatim>\<open>os.Args[1:]\<close> (a
  panic on an empty \<^verbatim>\<open>os.Args\<close>) and calls \<^verbatim>\<open>syscall.Exec\<close>, which does not come back
  when it succeeds; its error is a panic.
\<close>

definition exec_name :: "os_env \<Rightarrow> world \<Rightarrow> string result" where
  "exec_name os w =
     (if binSelf w = [] then
        (case self os of
           Err e \<Rightarrow> Panic CannotFindSelf
         | r \<Rightarrow> r)
      else Ok (binSelf w))"

definition Exec :: "os_env \<Rightarrow> world \<Rightarrow> status \<times> world" where
  "Exec os w =
     (case exec_name os w of
        Panic p \<Rightarrow> (Panicked p, w)
      | Err e \<Rightarrow> (Panicked CannotFindSelf, w)
      | Ok execName \<Rightarrow>
          let w1 = (case closeWatcher w of None \<Rightarrow> w | Some wid \<Rightarrow> close_watcher wid w)
          in (case args os of
                [] \<Rightarrow> (Panicked IndexOutOfRange, w1)
              | _ # rest \<Rightarrow>
                  let argv = execName # rest;
                      w2 = emit [SyscallExec execName argv (environ os)] w1
                  in if syscall_exec_ok os execName
                     then (Replaced execName argv (environ os), w2)
                     else (Panicked CannotRestart, w2)))"

text \<open>Calling a function value.\<close>

fun call :: "os_env \<Rightarrow> action \<Rightarrow> world \<Rightarrow> status \<times> world" where
  "call os ActExec w = Exec os w"
| "call os (ActUser f) w = (Returned, w)"
| "call os ActNil w = (Panicked NilFunc, w)"

subsection \<open>The event loop of Do\<close>

text \<open>
  The \<^verbatim>\<open>switch runtime.GOOS\<close>: which operations trigger, and whether the platform is one
  of the named ones (the \<^verbatim>\<open>default\<close> branch logs).
\<close>

definition bsd :: "string \<Rightarrow> bool" where
  "bsd g = (g \<in> set [''darwin'', ''freebsd'', ''openbsd'', ''netbsd'', ''dragonfly''])"

definition trigger :: "string \<Rightarrow> Op \<Rightarrow> bool" where
  "trigger g op =
     (if bsd g then op AND Create = Create
      else if g = ''linux'' then op AND Write = Write
      else op AND Create = Create)"

definition untested :: "string \<Rightarrow> bool" where
  "untested g = (\<not> bsd g \<and> g \<noteq> ''linux'')"

text \<open>\<^verbatim>\<open>strings.HasPrefix(event.Name, a.path)\<close>\<close>

definition matches :: "event \<Rightarrow> dir \<Rightarrow> bool" where
  "matches ev a = prefix (path a) (Name ev)"

text \<open>
  \<^verbatim>\<open>for _, a := range additional\<close>: sleep and call the callback of each match, in order.
  A callback that does not return ends the loop with the process.
\<close>

fun run_callbacks :: "os_env \<Rightarrow> event \<Rightarrow> dir list \<Rightarrow> world \<Rightarrow> status \<times> world" where
  "run_callbacks os ev [] w = (Returned, w)"
| "run_callbacks os ev (a # as) w =
     (if matches ev a then
        (case call os (cb a) (emit [Sleep 100, InvokeCallback a] w) of
           (Returned, w') \<Rightarrow> run_callbacks os ev as w'
         | r \<Rightarrow> r)
      else run_callbacks os ev as w)"

text \<open>
  \<^verbatim>\<open>if event.Name == binSelf { time.Sleep(100 * time.Millisecond); RestartExec() }\<close>
\<close>

definition run_restart :: "os_env \<Rightarrow> event \<Rightarrow> world \<Rightarrow> status \<times> world" where
  "run_restart os ev w =
     (if Name ev = binSelf w
      then call os (RestartExec w) (emit [Sleep 100, InvokeRestart] w)
      else (Returned, w))"

text \<open>
  One \<^verbatim>\<open>case event := <-watcher.Events\<close>: the \<^verbatim>\<open>switch\<close> (with the \<^verbatim>\<open>log\<close> of its
  \<^verbatim>\<open>default\<close> branch), \<^verbatim>\<open>continue\<close> when the event does not trigger, the restart, the
  callbacks.
\<close>

definition handle_event :: "os_env \<Rightarrow> dir list \<Rightarrow> event \<Rightarrow> world \<Rightarrow> status \<times> world" where
  "handle_event os additional ev w =
     (let w1 = (if untested (goos os) then emit [Log (UntestedGOOS (goos os))] w else w)
      in if \<not> trigger (goos os) (Op ev) then (Returned, w1)
         else (case run_restart os ev w1 of
                 (Returned, w2) \<Rightarrow> run_callbacks os ev additional w2
               | r \<Rightarrow> r))"

text \<open>One round of the \<^verbatim>\<open>select\<close>.\<close>

fun handle :: "os_env \<Rightarrow> dir list \<Rightarrow> notification \<Rightarrow> world \<Rightarrow> status \<times> world" where
  "handle os additional (WatcherError e) w = (Returned, emit [Log (ReloadError e)] w)"
| "handle os additional (WatcherEvent ev) w = handle_event os additional ev w"

text \<open>
  The \<^verbatim>\<open>for { select { ... } }\<close> on the notifications received so far, in the order
  received. \<open>Returned\<close> is the loop waiting for the next one.
\<close>

fun run_loop :: "os_env \<Rightarrow> dir list \<Rightarrow> notification list \<Rightarrow> world \<Rightarrow> status \<times> world" where
  "run_loop os additional [] w = (Returned, w)"
| "run_loop os additional (n # ns) w =
     (case handle os additional n w of
        (Returned, w') \<Rightarrow> run_loop os additional ns w'
      | r \<Rightarrow> r)"

subsection \<open>Do\<close>

text \<open>
  The loop over \<^verbatim>\<open>additional\<close>: \<^verbatim>\<open>filepath.Abs\<close>, \<^verbatim>\<open>os.Stat\<close>, \<^verbatim>\<open>IsDir\<close>; the first
  failure is returned; each entry gets its absolute path.
\<close>

fun resolve :: "os_env \<Rightarrow> dir list \<Rightarrow> error + dir list" where
  "resolve os [] = Inr []"
| "resolve os (a # as) =
     (case abs_path os (path a) of
        None \<Rightarrow> Inl (CannotGetAbsolutePath (path a))
      | Some p \<Rightarrow>
          (case stat os p of
             None \<Rightarrow> Inl (StatFailed p)
           | Some isdir \<Rightarrow>
               if \<not> isdir then Inl (NotADirectory (path a))
               else (case resolve os as of
                       Inl e \<Rightarrow> Inl e
                     | Inr rs \<Rightarrow> Inr (a\<lparr>path := p\<rparr> # rs))))"

text \<open>\<^verbatim>\<open>for _, d := range dirs { if err := watcher.Add(d); err != nil { return ... } }\<close>\<close>

fun add_dirs :: "os_env \<Rightarrow> nat \<Rightarrow> string list \<Rightarrow> world \<Rightarrow> error option \<times> world" where
  "add_dirs os wid [] w = (None, w)"
| "add_dirs os wid (d # ds) w =
     (if watcher_add_ok os d
      then add_dirs os wid ds (w\<lparr>watched := watched w @ [(wid, d)]\<rparr>)
      else (Some (CannotAddToWatcher d), w))"

text \<open>
  How \<^verbatim>\<open>Do\<close> ends: it returns an error, it panics (in \<^verbatim>\<open>self\<close>), or it stays in
  \<^verbatim>\<open><-done\<close>, a channel nothing sends on.
\<close>

datatype do_outcome = Failed error | Crashed panic | Parked

text \<open>
  \<^verbatim>\<open>Do\<close>, in the order of the source: the watcher, \<open>closeWatcher\<close>, \<open>binSelf\<close> (which
  takes the empty string that \<^verbatim>\<open>self\<close> returns with an error), the loop over
  \<^verbatim>\<open>additional\<close>, the goroutine, the loop over \<^verbatim>\<open>dirs\<close>, the start-up message.
\<close>

definition Do :: "os_env \<Rightarrow> dir list \<Rightarrow> world \<Rightarrow> do_outcome \<times> world" where
  "Do os additional w =
     (if \<not> new_watcher_ok os then (Failed CannotSetupWatcher, w)
      else
        let wid = watchers w;
            w1 = w\<lparr>watchers := Suc wid, open_watchers := wid # open_watchers w,
                   closeWatcher := Some wid\<rparr>
        in (case self os of
              Panic p \<Rightarrow> (Crashed p, w1)
            | Err e \<Rightarrow> (Failed e, w1\<lparr>binSelf := []\<rparr>)
            | Ok bin \<Rightarrow>
                let w2 = w1\<lparr>binSelf := bin\<rparr>
                in (case resolve os additional of
                      Inl e \<Rightarrow> (Failed e, w2)
                    | Inr resolved \<Rightarrow>
                        let dirs = path_dir os bin # map path resolved;
                            w3 = w2\<lparr>loops := loops w2 @ [(wid, resolved)]\<rparr>
                        in (case add_dirs os wid dirs w3 of
                              (Some e, w4) \<Rightarrow> (Failed e, w4)
                            | (None, w4) \<Rightarrow>
                                (Parked,
                                 emit [Log (Restarting (relpath os bin)
                                         (map (relpath os) (tl dirs)))] w4)))))"

section \<open>Reading traces and inputs\<close>

text \<open>The effects \<open>Exec\<close> can have, and the effects the callbacks loop can have.\<close>

fun exec_effect :: "effect \<Rightarrow> bool" where
  "exec_effect (WatcherClose i) = True"
| "exec_effect (SyscallExec p a e) = True"
| "exec_effect x = False"

fun callback_effect :: "effect \<Rightarrow> bool" where
  "callback_effect (Sleep n) = True"
| "callback_effect (InvokeCallback d) = True"
| "callback_effect x = exec_effect x"

text \<open>What the \<^verbatim>\<open>default\<close> branch of the \<^verbatim>\<open>switch\<close> logs for one event.\<close>

definition warning :: "os_env \<Rightarrow> effect list" where
  "warning os = (if untested (goos os) then [Log (UntestedGOOS (goos os))] else [])"

fun is_event :: "notification \<Rightarrow> bool" where
  "is_event (WatcherEvent ev) = True"
| "is_event (WatcherError e) = False"

text \<open>
  A descriptor whose path exists and is a directory: \<^verbatim>\<open>filepath.Abs\<close> answers and
  \<^verbatim>\<open>os.Stat\<close> of the answer is a directory. The errors of the loop over \<^verbatim>\<open>additional\<close>
  are the validation errors.
\<close>

definition valid_dir :: "os_env \<Rightarrow> dir \<Rightarrow> bool" where
  "valid_dir os a =
     (case abs_path os (path a) of None \<Rightarrow> False | Some p \<Rightarrow> stat os p = Some True)"

fun validation_error :: "error \<Rightarrow> bool" where
  "validation_error (CannotGetAbsolutePath p) = True"
| "validation_error (StatFailed p) = True"
| "validation_error (NotADirectory p) = True"
| "validation_error e = False"

text \<open>
  An environment to run the functions in: the binary \<^verbatim>\<open>/app/bin/server\<close> started by
  its absolute path with one argument, in the working directory \<^verbatim>\<open>/app\<close>, on the
  platform \<open>g\<close>; five directories exist; every library call succeeds.
\<close>

definition ex_os :: "string \<Rightarrow> os_env" where
  "ex_os g = \<lparr>goos = g, args = [''/app/bin/server'', ''-v''], environ = [''HOME=/root''],
     executable = Some ''/app/bin/server'', getwd = Some ''/app'',
     is_abs = (\<lambda>p. take 1 p = ''/''),
     abs_path = (\<lambda>p. if take 1 p = ''/'' then Some p else Some (''/app/'' @ p)),
     path_dir = (\<lambda>p. ''/app/bin''),
     stat = (\<lambda>p. if p \<in> set [''/app'', ''/app/bin'', ''/app/templates'', ''/a/b'', ''/a/bc'']
                   then Some True
                   else if p = ''/app/bin/server'' then Some False else None),
     new_watcher_ok = True, watcher_add_ok = (\<lambda>d. True), syscall_exec_ok = (\<lambda>p. True)\<rparr>"

text \<open>The process after \<open>Do\<close> on that environment, started from \<open>init_world\<close>.\<close>

definition ex_started :: "string \<Rightarrow> dir list \<Rightarrow> world" where
  "ex_started g ads = snd (Do (ex_os g) ads init_world)"

text \<open>
  Variants of that environment: \<^verbatim>\<open>watcher.Add\<close> succeeds for the directory of the binary
  only; \<^verbatim>\<open>syscall.Exec\<close> fails; the process was started as \<^verbatim>\<open>server\<close> and
  \<^verbatim>\<open>os.Executable()\<close> fails.
\<close>

definition ex_os_add :: os_env where
  "ex_os_add = (ex_os ''linux'')\<lparr>watcher_add_ok := (\<lambda>d. d = ''/app/bin'')\<rparr>"

definition ex_os_noexec :: os_env where
  "ex_os_noexec = (ex_os ''linux'')\<lparr>syscall_exec_ok := (\<lambda>p. False)\<rparr>"

definition ex_os_relative :: os_env where
  "ex_os_relative = (ex_os ''linux'')\<lparr>args := [''server''], executable := None\<rparr>"


text \<open>Two nested directories, and two directories of which one name begins the other.\<close>

definition ex_two :: "dir list" where
  "ex_two = [Dir ''/app'' (ActUser ''rebuild''),
             Dir ''/app/templates'' (ActUser ''reloadTemplates'')]"

definition ex_siblings :: "dir list" where
  "ex_siblings = [Dir ''/a/b'' (ActUser ''onB''), Dir ''/a/bc'' (ActUser ''onBC'')]"

text \<open>
  Lists in which the first directory has \<^verbatim>\<open>reload.Exec\<close> as its callback, the use the
  comment of \<^verbatim>\<open>Dir\<close> recommends.
\<close>

definition ex_exec_first :: "dir list" where
  "ex_exec_first = [Dir ''/app'' ActExec,
                    Dir ''/app/templates'' (ActUser ''reloadTemplates'')]"

definition ex_siblings_exec :: "dir list" where
  "ex_siblings_exec = [Dir ''/a/bc'' ActExec, Dir ''/a/b'' (ActUser ''onB'')]"

text \<open>
  What the loop over \<^verbatim>\<open>additional\<close> does for entries whose callbacks return: a sleep
  and a call for each match.
\<close>

definition calls :: "event \<Rightarrow> dir list \<Rightarrow> effect list" where
  "calls ev ads = concat (map (\<lambda>b. [Sleep 100, InvokeCallback b]) (filter (matches ev) ads))"


section \<open>Lemmas on traces\<close>

lemmas ex_defs = ex_started_def Do_def ex_os_def Let_def self_def Dir_def init_world_def
  relpath_def emit_def close_watcher_def handle_event_def run_restart_def Exec_def
  exec_name_def trigger_def bsd_def untested_def matches_def Create_def Write_def Chmod_def
  valid_dir_def warning_def


lemma emit_emit: "emit es (emit es' w) = emit (es' @ es) w"
  by (simp add: emit_def)

lemma emit_Nil: "emit [] w = w"
  by (simp add: emit_def)

lemma trace_emit: "trace (emit es w) = trace w @ es"
  by (simp add: emit_def)

lemma Exec_not_Returned: "fst (Exec os w) \<noteq> Returned"
  by (simp add: Exec_def Let_def split: result.splits list.splits)

lemma Exec_trace: "\<exists>es. trace (snd (Exec os w)) = trace w @ es \<and> list_all exec_effect es"
  by (cases "closeWatcher w")
     (simp_all add: Exec_def Let_def emit_def close_watcher_def split: result.splits list.splits)

lemma exec_effect_callback: "list_all exec_effect es \<Longrightarrow> list_all callback_effect es"
  by (induction es) (auto elim: exec_effect.elims)

lemma call_trace: "\<exists>es. trace (snd (call os act w)) = trace w @ es \<and> list_all exec_effect es"
  by (cases act) (simp_all add: Exec_trace)

lemma call_user: "is_user act \<Longrightarrow> call os act w = (Returned, w)"
  by (cases act) simp_all

lemma run_callbacks_trace:
  "\<exists>es. trace (snd (run_callbacks os ev ads w)) = trace w @ es \<and> list_all callback_effect es"
proof (induction ads arbitrary: w)
  case Nil
  show ?case by simp
next
  case (Cons a ads)
  show ?case
  proof (cases "matches ev a")
    case False
    then show ?thesis using Cons.IH [of w] by simp
  next
    case True
    let ?w1 = "emit [Sleep 100, InvokeCallback a] w"
    obtain st w2 where c: "call os (cb a) ?w1 = (st, w2)"
      by (cases "call os (cb a) ?w1")
    obtain es where es: "trace w2 = trace ?w1 @ es" "list_all exec_effect es"
      using call_trace [of os "cb a" ?w1] c by auto
    show ?thesis
    proof (cases "st = Returned")
      case True
      obtain es' where "trace (snd (run_callbacks os ev ads w2)) = trace w2 @ es'"
        "list_all callback_effect es'" using Cons.IH [of w2] by auto
      with es True c \<open>matches ev a\<close> show ?thesis
        by (auto simp: trace_emit exec_effect_callback
            intro!: exI [of _ "[Sleep 100, InvokeCallback a] @ es @ es'"])
    next
      case False
      with es c \<open>matches ev a\<close> show ?thesis
        by (cases st) (auto simp: trace_emit exec_effect_callback
            intro!: exI [of _ "[Sleep 100, InvokeCallback a] @ es"])
    qed
  qed
qed

lemma handle_event_warning:
  "handle_event os additional ev w =
     (if \<not> trigger (goos os) (Op ev) then (Returned, emit (warning os) w)
      else (case run_restart os ev (emit (warning os) w) of
              (Returned, w2) \<Rightarrow> run_callbacks os ev additional w2
            | r \<Rightarrow> r))"
  by (simp add: handle_event_def warning_def emit_Nil)

lemma run_restart_trace:
  "\<exists>es. trace (snd (run_restart os ev w)) = trace w @ es \<and>
     (es = [] \<or> (\<exists>es'. es = [Sleep 100, InvokeRestart] @ es' \<and> list_all exec_effect es'))"
proof (cases "Name ev = binSelf w")
  case False
  then show ?thesis by (simp add: run_restart_def)
next
  case True
  obtain es where "trace (snd (call os (RestartExec w) (emit [Sleep 100, InvokeRestart] w)))
      = trace (emit [Sleep 100, InvokeRestart] w) @ es" "list_all exec_effect es"
    using call_trace by blast
  with True show ?thesis by (simp add: run_restart_def trace_emit)
qed

subsection \<open>Counting log lines\<close>

lemma count_exec_effect: "list_all exec_effect es \<Longrightarrow> count_list es (Log m) = 0"
  by (induction es) auto

lemma count_callback_effect: "list_all callback_effect es \<Longrightarrow> count_list es (Log m) = 0"
  by (induction es) auto

lemma count_list_append: "count_list (xs @ ys) x = count_list xs x + count_list ys x"
  by (induction xs) auto

lemma run_restart_count:
  "count_list (trace (snd (run_restart os ev w))) (Log m) = count_list (trace w) (Log m)"
  using run_restart_trace [of os ev w] by (auto simp: count_list_append count_exec_effect)

lemma run_callbacks_count:
  "count_list (trace (snd (run_callbacks os ev ads w))) (Log m) = count_list (trace w) (Log m)"
  using run_callbacks_trace [of os ev ads w]
  by (auto simp: count_list_append count_callback_effect)

lemma handle_event_count:
  assumes u: "untested (goos os)"
  shows "count_list (trace (snd (handle_event os ads ev w))) (Log (UntestedGOOS (goos os)))
     = Suc (count_list (trace w) (Log (UntestedGOOS (goos os))))"
proof -
  let ?m = "UntestedGOOS (goos os)"
  let ?w1 = "emit (warning os) w"
  have w1: "count_list (trace ?w1) (Log ?m) = Suc (count_list (trace w) (Log ?m))"
    using u by (simp add: warning_def trace_emit count_list_append)
  show ?thesis
  proof (cases "trigger (goos os) (Op ev)")
    case False
    then show ?thesis using w1 by (simp add: handle_event_warning)
  next
    case True
    obtain st w2 where r: "run_restart os ev ?w1 = (st, w2)"
      by (cases "run_restart os ev ?w1")
    have w2: "count_list (trace w2) (Log ?m) = count_list (trace ?w1) (Log ?m)"
      using run_restart_count [of os ev ?w1 ?m] r by simp
    show ?thesis
    proof (cases st)
      case Returned
      then show ?thesis using True r w1 w2 run_callbacks_count [of os ev ads w2 ?m]
        by (simp add: handle_event_warning)
    next
      case (Replaced x y z)
      then show ?thesis using True r w1 w2 by (simp add: handle_event_warning)
    next
      case (Panicked p)
      then show ?thesis using True r w1 w2 by (simp add: handle_event_warning)
    qed
  qed
qed

section \<open>Classification of events\<close>

text \<open>
  C3, as the code has it. Whether an event triggers depends on the platform and on the
  operation only: on darwin, freebsd, openbsd, netbsd and dragonfly it triggers exactly
  when the operation includes create, on linux exactly when it includes write, on
  every other platform exactly when it includes create. An event that does not trigger
  is dropped without any effect on the BSD platforms and on linux; on every other
  platform the warning about the untested platform is logged for it, and nothing else
  happens.
\<close>

theorem trigger_by_platform:
  "(bsd g \<longleftrightarrow> g \<in> {''darwin'', ''freebsd'', ''openbsd'', ''netbsd'', ''dragonfly''})
   \<and> (bsd g \<longrightarrow> trigger g op = (op AND Create = Create))
   \<and> (g = ''linux'' \<longrightarrow> trigger g op = (op AND Write = Write))
   \<and> (\<not> bsd g \<and> g \<noteq> ''linux'' \<longrightarrow> trigger g op = (op AND Create = Create))
   \<and> (\<not> trigger (goos os) (Op ev) \<longrightarrow>
        handle_event os additional ev w =
          (Returned, if bsd (goos os) \<or> goos os = ''linux'' then w
                     else emit [Log (UntestedGOOS (goos os))] w))"
  by (auto simp: trigger_def bsd_def handle_event_def untested_def)

theorem trigger_by_platform_witness:
  "bsd ''darwin'' \<and> trigger ''darwin'' (Create OR Chmod) \<and> \<not> trigger ''darwin'' Write
   \<and> trigger ''linux'' Write \<and> \<not> trigger ''linux'' Create
   \<and> trigger ''plan9'' Create \<and> \<not> trigger ''plan9'' Write
   \<and> handle_event (ex_os ''linux'') [] \<lparr>Name = ''/app/bin/server'', Op = Chmod\<rparr> init_world
       = (Returned, init_world)"
  using
    trigger_by_platform [of "''darwin''" "Create OR Chmod" "ex_os ''linux''"
      "\<lparr>Name = ''/app/bin/server'', Op = Chmod\<rparr>" "[]" init_world]
    trigger_by_platform [of "''darwin''" "Write" "ex_os ''linux''"
      "\<lparr>Name = ''/app/bin/server'', Op = Chmod\<rparr>" "[]" init_world]
    trigger_by_platform [of "''linux''" "Write" "ex_os ''linux''"
      "\<lparr>Name = ''/app/bin/server'', Op = Chmod\<rparr>" "[]" init_world]
    trigger_by_platform [of "''linux''" "Create" "ex_os ''linux''"
      "\<lparr>Name = ''/app/bin/server'', Op = Chmod\<rparr>" "[]" init_world]
    trigger_by_platform [of "''plan9''" "Create" "ex_os ''linux''"
      "\<lparr>Name = ''/app/bin/server'', Op = Chmod\<rparr>" "[]" init_world]
    trigger_by_platform [of "''plan9''" "Write" "ex_os ''linux''"
      "\<lparr>Name = ''/app/bin/server'', Op = Chmod\<rparr>" "[]" init_world]
  by (simp add: ex_os_def Create_def Write_def Chmod_def trigger_def bsd_def)

text \<open>
  C3 as the specification words it fails: on solaris a write event does not trigger,
  and handling it logs a line.
\<close>

theorem untriggered_event_logs_counterexample:
  "\<not> trigger (goos (ex_os ''solaris'')) (Op \<lparr>Name = ''/app/bin/server'', Op = Write\<rparr>)
   \<and> trace (snd (handle_event (ex_os ''solaris'') []
                  \<lparr>Name = ''/app/bin/server'', Op = Write\<rparr> init_world))
       = [Log (UntestedGOOS ''solaris'')]
   \<and> trace init_world = []"
  by (simp add: handle_event_def ex_os_def untested_def trigger_def bsd_def Create_def Write_def
      emit_def init_world_def)

section \<open>The warning on other platforms\<close>

text \<open>
  C4, as the code has it. On a platform that is neither of the BSD family nor linux the
  warning is logged once for every event the loop handles: after the loop has handled
  a sequence of notifications and waits for the next one, the number of warnings logged
  has grown by the number of events in the sequence.
\<close>

theorem untested_warning_per_event:
  assumes u: "untested (goos os)"
      and r: "run_loop os additional ns w = (Returned, w')"
  shows "count_list (trace w') (Log (UntestedGOOS (goos os)))
     = count_list (trace w) (Log (UntestedGOOS (goos os))) + length (filter is_event ns)"
  using r
proof (induction ns arbitrary: w)
  case Nil
  then show ?case by simp
next
  case (Cons n ns)
  obtain st w1 where h: "handle os additional n w = (st, w1)"
    by (cases "handle os additional n w")
  with Cons.prems have st: "st = Returned" by (cases st) auto
  with h Cons.prems have rest: "run_loop os additional ns w1 = (Returned, w')" by simp
  have "count_list (trace w1) (Log (UntestedGOOS (goos os)))
      = count_list (trace w) (Log (UntestedGOOS (goos os))) + (if is_event n then 1 else 0)"
  proof (cases n)
    case (WatcherError e)
    with h show ?thesis by (auto simp: trace_emit count_list_append)
  next
    case (WatcherEvent ev)
    with h handle_event_count [OF u, of additional ev w] show ?thesis by simp
  qed
  with Cons.IH [OF rest] show ?case by simp
qed

theorem untested_warning_per_event_witness:
  "untested (goos (ex_os ''solaris''))
   \<and> fst (run_loop (ex_os ''solaris'') []
       [WatcherEvent \<lparr>Name = ''/app/x'', Op = Write\<rparr>, WatcherError ''overflow'',
        WatcherEvent \<lparr>Name = ''/app/y'', Op = Chmod\<rparr>] init_world) = Returned
   \<and> count_list (trace (snd (run_loop (ex_os ''solaris'') []
       [WatcherEvent \<lparr>Name = ''/app/x'', Op = Write\<rparr>, WatcherError ''overflow'',
        WatcherEvent \<lparr>Name = ''/app/y'', Op = Chmod\<rparr>] init_world)))
       (Log (UntestedGOOS ''solaris'')) = 2"
proof -
  let ?ns = "[WatcherEvent \<lparr>Name = ''/app/x'', Op = Write\<rparr>, WatcherError ''overflow'',
        WatcherEvent \<lparr>Name = ''/app/y'', Op = Chmod\<rparr>]"
  let ?os = "ex_os ''solaris''"
  have g: "goos ?os = ''solaris''" by (simp add: ex_os_def)
  have u: "untested (goos ?os)" by (simp add: g untested_def bsd_def)
  have nt: "\<not> trigger ''solaris'' Write" "\<not> trigger ''solaris'' Chmod"
    by (simp_all add: trigger_def bsd_def Create_def Write_def Chmod_def)
  have r: "fst (run_loop ?os [] ?ns init_world) = Returned"
    using nt u by (simp add: handle_event_def g)
  then obtain w' where w': "run_loop ?os [] ?ns init_world = (Returned, w')"
    by (cases "run_loop ?os [] ?ns init_world") simp
  have "trace init_world = []" by (simp add: init_world_def)
  with untested_warning_per_event [OF u w'] w' u r g show ?thesis by simp
qed

text \<open>
  C4 as the specification words it fails: two events on solaris, two warnings.
\<close>

theorem untested_warning_repeats_counterexample:
  "untested (goos (ex_os ''solaris''))
   \<and> count_list (trace (snd (run_loop (ex_os ''solaris'') []
       [WatcherEvent \<lparr>Name = ''/app/x'', Op = Write\<rparr>,
        WatcherEvent \<lparr>Name = ''/app/y'', Op = Chmod\<rparr>] init_world)))
       (Log (UntestedGOOS ''solaris'')) = 2"
  by (simp add: handle_event_def ex_os_def untested_def trigger_def bsd_def Create_def
      Write_def Chmod_def emit_def init_world_def)

section \<open>Start-up\<close>

lemma add_dirs_eq:
  "add_dirs os wid ds w =
     (if list_all (watcher_add_ok os) ds then None
      else Some (CannotAddToWatcher (hd (dropWhile (watcher_add_ok os) ds))),
      w\<lparr>watched := watched w @ map (Pair wid) (takeWhile (watcher_add_ok os) ds)\<rparr>)"
  by (induction ds arbitrary: w) simp_all

lemma resolve_error: "resolve os ads = Inl e \<Longrightarrow> validation_error e"
  by (induction ads arbitrary: e) (auto split: option.splits if_splits sum.splits)

lemma resolve_invalid:
  "(\<exists>e. resolve os ads = Inl e) \<longleftrightarrow> (\<exists>a\<in>set ads. \<not> valid_dir os a)"
  by (induction ads) (auto simp: valid_dir_def split: option.splits sum.splits)


text \<open>
  What a start-up that reaches \<^verbatim>\<open><-done\<close> leaves: \<open>binSelf\<close> is the path \<open>self\<close>
  resolves, \<open>closeWatcher\<close> closes the new watcher, and one more event loop runs, on the
  resolved additional directories.
\<close>

lemma Do_parked:
  assumes "Do os additional w0 = (Parked, w)"
  shows "self os = Ok (binSelf w) \<and> closeWatcher w = Some (watchers w0)
     \<and> RestartExec w = RestartExec w0
     \<and> (\<exists>resolved. resolve os additional = Inr resolved
           \<and> loops w = loops w0 @ [(watchers w0, resolved)])"
  using assms
  by (auto simp: Do_def Let_def add_dirs_eq emit_def
      split: if_splits result.splits sum.splits)

section \<open>Dispatch\<close>


lemma exec_effect_no_callback: "list_all exec_effect es \<Longrightarrow> InvokeCallback d \<notin> set es"
  by (induction es) auto

lemma run_callbacks_users:
  "\<forall>b\<in>set pre. matches ev b \<longrightarrow> is_user (cb b) \<Longrightarrow>
   run_callbacks os ev (pre @ rest) w = run_callbacks os ev rest (emit (calls ev pre) w)"
proof (induction pre arbitrary: w)
  case Nil
  show ?case by (simp add: calls_def emit_Nil)
next
  case (Cons b pre)
  show ?case
  proof (cases "matches ev b")
    case False
    with Cons show ?thesis by (simp add: calls_def)
  next
    case True
    with Cons.prems have "is_user (cb b)" by simp
    then have "call os (cb b) v = (Returned, v)" for v by (rule call_user)
    with True Cons show ?thesis by (simp add: calls_def emit_emit)
  qed
qed

lemma run_callbacks_hit:
  assumes "matches ev a"
  shows "\<exists>es. trace (snd (run_callbacks os ev (a # post) w))
            = trace w @ [Sleep 100, InvokeCallback a] @ es"
proof -
  let ?w1 = "emit [Sleep 100, InvokeCallback a] w"
  obtain st w2 where c: "call os (cb a) ?w1 = (st, w2)" by (cases "call os (cb a) ?w1")
  obtain es where es: "trace w2 = trace ?w1 @ es"
    using call_trace [of os "cb a" ?w1] c by auto
  show ?thesis
  proof (cases "st = Returned")
    case True
    obtain es' where "trace (snd (run_callbacks os ev post w2)) = trace w2 @ es'"
      using run_callbacks_trace [of os ev post w2] by auto
    with es True c assms show ?thesis by (simp add: trace_emit)
  next
    case False
    with es c assms show ?thesis by (cases st) (simp_all add: trace_emit)
  qed
qed

lemma binSelf_emit: "binSelf (emit es w) = binSelf w"
  by (simp add: emit_def)

lemma RestartExec_emit: "RestartExec (emit es w) = RestartExec w"
  by (simp add: emit_def)

lemma handle_event_alive:
  assumes "trigger (goos os) (Op ev)" and "Name ev \<noteq> binSelf w \<or> is_user (RestartExec w)"
  shows "handle_event os additional ev w =
     run_callbacks os ev additional
       (emit (warning os @ (if Name ev = binSelf w then [Sleep 100, InvokeRestart] else [])) w)"
  using assms
  by (auto simp: handle_event_warning run_restart_def binSelf_emit RestartExec_emit call_user emit_emit)

lemma callback_reached:
  assumes trig: "trigger (goos os) (Op ev)"
      and alive: "Name ev \<noteq> binSelf w \<or> is_user (RestartExec w)"
      and m: "matches ev a"
      and pre: "\<forall>c\<in>set pre. matches ev c \<longrightarrow> is_user (cb c)"
  shows "\<exists>es'. trace (snd (handle_event os (pre @ a # post) ev w))
       = trace w @ warning os @ (if Name ev = binSelf w then [Sleep 100, InvokeRestart] else [])
           @ calls ev pre @ [Sleep 100, InvokeCallback a] @ es'"
proof -
  let ?r = "if Name ev = binSelf w then [Sleep 100, InvokeRestart] else []"
  let ?w0 = "emit (warning os @ ?r) w"
  let ?w1 = "emit (calls ev pre) ?w0"
  have "handle_event os (pre @ a # post) ev w = run_callbacks os ev (pre @ a # post) ?w0"
    using trig alive by (rule handle_event_alive)
  also have "\<dots> = run_callbacks os ev (a # post) ?w1"
    using pre by (rule run_callbacks_users)
  finally have h: "handle_event os (pre @ a # post) ev w = run_callbacks os ev (a # post) ?w1" .
  obtain es' where "trace (snd (run_callbacks os ev (a # post) ?w1))
      = trace ?w1 @ [Sleep 100, InvokeCallback a] @ es'"
    using run_callbacks_hit [OF m] by blast
  with h have "trace (snd (handle_event os (pre @ a # post) ev w))
      = trace w @ warning os @ ?r @ calls ev pre @ [Sleep 100, InvokeCallback a] @ es'"
    by (simp add: trace_emit)
  then show ?thesis by blast
qed

lemma matches_iff: "matches ev a \<longleftrightarrow> (\<exists>s. Name ev = path a @ s)"
  by (simp add: matches_def prefix_def)

lemma call_not_user: "\<not> is_user act \<Longrightarrow> fst (call os act w) \<noteq> Returned"
  by (cases act) (simp_all add: Exec_not_Returned)

lemma run_callbacks_all_users:
  assumes "\<forall>c\<in>set ads. matches ev c \<longrightarrow> is_user (cb c)"
  shows "run_callbacks os ev ads w = (Returned, emit (calls ev ads) w)"
  using run_callbacks_users [OF assms, of os "[]" w] by simp

lemma run_callbacks_stop:
  assumes m: "matches ev a" and nu: "\<not> is_user (cb a)"
  shows "fst (run_callbacks os ev (a # post) w) \<noteq> Returned
     \<and> (\<exists>es. trace (snd (run_callbacks os ev (a # post) w))
            = trace w @ [Sleep 100, InvokeCallback a] @ es \<and> list_all exec_effect es)"
proof -
  let ?w1 = "emit [Sleep 100, InvokeCallback a] w"
  obtain st w2 where c: "call os (cb a) ?w1 = (st, w2)" by (cases "call os (cb a) ?w1")
  have st: "st \<noteq> Returned" using call_not_user [OF nu, of os ?w1] c by simp
  obtain es where es: "trace w2 = trace ?w1 @ es" "list_all exec_effect es"
    using call_trace [of os "cb a" ?w1] c by auto
  have "run_callbacks os ev (a # post) w = (st, w2)"
    using m c st by (cases st) simp_all
  with st es show ?thesis by (simp add: trace_emit)
qed

lemma callback_stops:
  assumes trig: "trigger (goos os) (Op ev)"
      and alive: "Name ev \<noteq> binSelf w \<or> is_user (RestartExec w)"
      and m: "matches ev a"
      and pre: "\<forall>c\<in>set pre. matches ev c \<longrightarrow> is_user (cb c)"
      and nu: "\<not> is_user (cb a)"
  shows "fst (handle_event os (pre @ a # post) ev w) \<noteq> Returned
     \<and> (\<exists>es. trace (snd (handle_event os (pre @ a # post) ev w))
           = trace w @ warning os
               @ (if Name ev = binSelf w then [Sleep 100, InvokeRestart] else [])
               @ calls ev pre @ [Sleep 100, InvokeCallback a] @ es
          \<and> list_all exec_effect es)"
proof -
  let ?r = "if Name ev = binSelf w then [Sleep 100, InvokeRestart] else []"
  let ?w0 = "emit (warning os @ ?r) w"
  let ?w1 = "emit (calls ev pre) ?w0"
  have "handle_event os (pre @ a # post) ev w = run_callbacks os ev (pre @ a # post) ?w0"
    using trig alive by (rule handle_event_alive)
  also have "\<dots> = run_callbacks os ev (a # post) ?w1"
    using pre by (rule run_callbacks_users)
  finally have h: "handle_event os (pre @ a # post) ev w = run_callbacks os ev (a # post) ?w1" .
  from run_callbacks_stop [OF m nu, of os post ?w1] h show ?thesis
    by (simp add: trace_emit)
qed

lemma restart_stops:
  assumes trig: "trigger (goos os) (Op ev)"
      and name: "Name ev = binSelf w"
      and nu: "\<not> is_user (RestartExec w)"
  shows "fst (handle_event os additional ev w) \<noteq> Returned
     \<and> (\<exists>es. trace (snd (handle_event os additional ev w))
           = trace w @ warning os @ [Sleep 100, InvokeRestart] @ es
          \<and> list_all exec_effect es)"
proof -
  let ?w2 = "emit [Sleep 100, InvokeRestart] (emit (warning os) w)"
  have rr: "run_restart os ev (emit (warning os) w) = call os (RestartExec w) ?w2"
    using name by (simp add: run_restart_def binSelf_emit RestartExec_emit)
  obtain st w3 where c: "call os (RestartExec w) ?w2 = (st, w3)"
    by (cases "call os (RestartExec w) ?w2")
  have st: "st \<noteq> Returned" using call_not_user [OF nu, of os ?w2] c by simp
  obtain es where es: "trace w3 = trace ?w2 @ es" "list_all exec_effect es"
    using call_trace [of os "RestartExec w" ?w2] c by auto
  have "handle_event os additional ev w = (st, w3)"
    using trig rr c st by (cases st) (simp_all add: handle_event_warning)
  with st es show ?thesis by (simp add: trace_emit)
qed

lemma handle_event_all_users:
  assumes trig: "trigger (goos os) (Op ev)"
      and alive: "Name ev \<noteq> binSelf w \<or> is_user (RestartExec w)"
      and all: "\<forall>c\<in>set additional. matches ev c \<longrightarrow> is_user (cb c)"
  shows "handle_event os additional ev w =
     (Returned,
      emit (warning os @ (if Name ev = binSelf w then [Sleep 100, InvokeRestart] else [])
              @ calls ev additional) w)"
  using handle_event_alive [OF trig alive, of additional] run_callbacks_all_users [OF all]
  by (simp add: emit_emit)

lemma InvokeCallback_calls:
  "InvokeCallback a \<in> set (calls ev ads) \<longleftrightarrow> a \<in> set ads \<and> matches ev a"
  by (auto simp: calls_def)



lemma ex_started_linux:
  "ex_started ''linux'' [] =
     \<lparr>binSelf = ''/app/bin/server'', closeWatcher = Some 0, RestartExec = ActExec,
      watchers = 1, open_watchers = [0], watched = [(0, ''/app/bin'')], loops = [(0, [])],
      trace = [Log (Restarting ''./bin/server'' [])]\<rparr>"
  by (simp add: ex_defs)


section \<open>Start-up: validation of the additional directories\<close>

text \<open>
  C7. For every list of additional directories in which at least one path does not
  exist or is not a directory, \<open>Do\<close> does not get to its event loop: it ends with an
  error (or in the panic of \<open>self\<close> on an empty \<^verbatim>\<open>os.Args\<close>), no directory has been added
  to the watcher, entries earlier in the list included, no event loop has been started
  and nothing has been logged. When the watcher could be created and the path of the
  binary resolved, the error is a validation error.
\<close>

theorem invalid_dir_fails_before_watching:
  assumes bad: "\<exists>a\<in>set additional. \<not> valid_dir os a"
  shows "fst (Do os additional w) \<noteq> Parked
     \<and> watched (snd (Do os additional w)) = watched w
     \<and> loops (snd (Do os additional w)) = loops w
     \<and> trace (snd (Do os additional w)) = trace w
     \<and> (new_watcher_ok os \<longrightarrow> (\<forall>bin. self os = Ok bin \<longrightarrow>
          (\<exists>e. fst (Do os additional w) = Failed e \<and> validation_error e)))"
proof -
  from bad obtain e where e: "resolve os additional = Inl e"
    using resolve_invalid by blast
  then have "validation_error e" by (rule resolve_error)
  with e show ?thesis
    by (cases "self os") (simp_all add: Do_def Let_def)
qed

theorem invalid_dir_fails_before_watching_witness:
  "(\<exists>a\<in>set [Dir ''templates'' (ActUser ''reloadTemplates''), Dir ''/app/missing'' ActExec].
       \<not> valid_dir (ex_os ''linux'') a)
   \<and> new_watcher_ok (ex_os ''linux'') \<and> self (ex_os ''linux'') = Ok ''/app/bin/server''
   \<and> fst (Do (ex_os ''linux'')
        [Dir ''templates'' (ActUser ''reloadTemplates''), Dir ''/app/missing'' ActExec] init_world)
       = Failed (StatFailed ''/app/missing'')
   \<and> watched (snd (Do (ex_os ''linux'')
        [Dir ''templates'' (ActUser ''reloadTemplates''), Dir ''/app/missing'' ActExec] init_world))
       = []
   \<and> loops (snd (Do (ex_os ''linux'')
        [Dir ''templates'' (ActUser ''reloadTemplates''), Dir ''/app/missing'' ActExec] init_world))
       = []"
proof -
  let ?os = "ex_os ''linux''"
  let ?ads = "[Dir ''templates'' (ActUser ''reloadTemplates''), Dir ''/app/missing'' ActExec]"
  have bad: "\<exists>a\<in>set ?ads. \<not> valid_dir ?os a"
    by (simp add: valid_dir_def ex_os_def Dir_def)
  have ok: "new_watcher_ok ?os" "self ?os = Ok ''/app/bin/server''"
    by (simp_all add: ex_os_def self_def)
  have err: "fst (Do ?os ?ads init_world) = Failed (StatFailed ''/app/missing'')"
    by (simp add: ex_defs)
  have "watched init_world = []" "loops init_world = []" by (simp_all add: init_world_def)
  with invalid_dir_fails_before_watching [OF bad, of init_world] bad ok err
  show ?thesis by simp
qed

text \<open>
  C10. On every error return after the watcher was created, \<open>closeWatcher\<close> is already
  the \<^verbatim>\<open>Close\<close> of the new watcher, that watcher is still open (\<open>Do\<close> has not closed
  it; nothing at all was done to the outside), and \<open>binSelf\<close> holds what \<open>self\<close>
  returned: the resolved path, or the empty string with a resolution error.
\<close>

theorem Do_error_leaves_watcher_open:
  assumes "Do os additional w = (Failed e, w')" and "e \<noteq> CannotSetupWatcher"
  shows "closeWatcher w' = Some (watchers w)
     \<and> open_watchers w' = watchers w # open_watchers w
     \<and> trace w' = trace w
     \<and> (case self os of Ok bin \<Rightarrow> binSelf w' = bin | _ \<Rightarrow> binSelf w' = [])"
  using assms
  by (auto simp: Do_def Let_def add_dirs_eq split: if_splits result.splits sum.splits)

theorem Do_error_leaves_watcher_open_witness:
  "Do (ex_os ''linux'') [Dir ''/app/bin/server'' (ActUser ''f'')] init_world
     = (Failed (NotADirectory ''/app/bin/server''),
        init_world\<lparr>binSelf := ''/app/bin/server'', closeWatcher := Some 0, watchers := 1,
          open_watchers := [0]\<rparr>)
   \<and> NotADirectory ''/app/bin/server'' \<noteq> CannotSetupWatcher
   \<and> closeWatcher init_world = None
   \<and> closeWatcher (snd (Do (ex_os ''linux'') [Dir ''/app/bin/server'' (ActUser ''f'')] init_world))
       = Some 0
   \<and> open_watchers (snd (Do (ex_os ''linux'') [Dir ''/app/bin/server'' (ActUser ''f'')] init_world))
       = [0]
   \<and> binSelf (snd (Do (ex_os ''linux'') [Dir ''/app/bin/server'' (ActUser ''f'')] init_world))
       = ''/app/bin/server''"
proof -
  let ?os = "ex_os ''linux''"
  let ?ads = "[Dir ''/app/bin/server'' (ActUser ''f'')]"
  let ?w' = "init_world\<lparr>binSelf := ''/app/bin/server'', closeWatcher := Some 0, watchers := 1,
          open_watchers := [0]\<rparr>"
  have d: "Do ?os ?ads init_world = (Failed (NotADirectory ''/app/bin/server''), ?w')"
    by (simp add: ex_defs)
  have n: "NotADirectory ''/app/bin/server'' \<noteq> CannotSetupWatcher" by simp
  have i: "closeWatcher init_world = None" "watchers init_world = 0" "open_watchers init_world = []"
    by (simp_all add: init_world_def)
  have s: "self ?os = Ok ''/app/bin/server''" by (simp add: ex_os_def self_def)
  from Do_error_leaves_watcher_open [OF d n] d n i s show ?thesis by simp
qed

section \<open>Start-up: adding the directories to the watcher\<close>

text \<open>
  C2, as the code has it. When the watcher was created, the path of the binary resolved
  and the additional directories validated, and adding one of the directories fails,
  \<open>Do\<close> returns the watch-setup error of the first directory that fails. The event
  loop was started before the first directory was added and is running when \<open>Do\<close>
  returns the error; the directories before the failing one are watched, and the
  watcher is open.
\<close>

theorem watch_failure_after_loop_started:
  assumes "new_watcher_ok os" and "self os = Ok bin" and "resolve os additional = Inr resolved"
      and "\<not> list_all (watcher_add_ok os) (path_dir os bin # map path resolved)"
  shows "\<exists>d. fst (Do os additional w) = Failed (CannotAddToWatcher d)
      \<and> d = hd (dropWhile (watcher_add_ok os) (path_dir os bin # map path resolved))
      \<and> \<not> watcher_add_ok os d
      \<and> loops (snd (Do os additional w)) = loops w @ [(watchers w, resolved)]
      \<and> watched (snd (Do os additional w)) =
          watched w @ map (Pair (watchers w))
            (takeWhile (watcher_add_ok os) (path_dir os bin # map path resolved))
      \<and> watchers w \<in> set (open_watchers (snd (Do os additional w)))"
proof -
  let ?ds = "path_dir os bin # map path resolved"
  let ?d = "hd (dropWhile (watcher_add_ok os) ?ds)"
  from assms(4) have "dropWhile (watcher_add_ok os) ?ds \<noteq> []"
    unfolding list_all_iff dropWhile_eq_Nil_conv by blast
  then have bad: "\<not> watcher_add_ok os ?d"
    using hd_dropWhile by blast
  have ad: "add_dirs os i ?ds v =
      (Some (CannotAddToWatcher ?d),
       v\<lparr>watched := watched v @ map (Pair i) (takeWhile (watcher_add_ok os) ?ds)\<rparr>)" for i v
    using assms(4) by (simp only: add_dirs_eq if_False)
  have "Do os additional w =
      (Failed (CannotAddToWatcher ?d),
       w\<lparr>watchers := Suc (watchers w), open_watchers := watchers w # open_watchers w,
         closeWatcher := Some (watchers w), binSelf := bin,
         loops := loops w @ [(watchers w, resolved)],
         watched := watched w @ map (Pair (watchers w)) (takeWhile (watcher_add_ok os) ?ds)\<rparr>)"
    using assms(1-3) by (simp add: Do_def Let_def ad del: add_dirs.simps)
  with bad show ?thesis by simp
qed

theorem watch_failure_after_loop_started_witness:
  "new_watcher_ok ex_os_add \<and> self ex_os_add = Ok ''/app/bin/server''
   \<and> resolve ex_os_add [Dir ''templates'' ActExec] = Inr [Dir ''/app/templates'' ActExec]
   \<and> \<not> list_all (watcher_add_ok ex_os_add)
         (path_dir ex_os_add ''/app/bin/server'' # map path [Dir ''/app/templates'' ActExec])
   \<and> fst (Do ex_os_add [Dir ''templates'' ActExec] init_world)
       = Failed (CannotAddToWatcher ''/app/templates'')
   \<and> loops (snd (Do ex_os_add [Dir ''templates'' ActExec] init_world))
       = [(0, [Dir ''/app/templates'' ActExec])]
   \<and> watched (snd (Do ex_os_add [Dir ''templates'' ActExec] init_world)) = [(0, ''/app/bin'')]"
proof -
  let ?os = "ex_os_add"
  have h1: "new_watcher_ok ?os" by (simp add: ex_os_add_def ex_os_def)
  have h2: "self ?os = Ok ''/app/bin/server''" by (simp add: ex_os_add_def ex_os_def self_def)
  have h3: "resolve ?os [Dir ''templates'' ActExec] = Inr [Dir ''/app/templates'' ActExec]"
    by (simp add: ex_os_add_def ex_os_def Dir_def)
  have h4: "\<not> list_all (watcher_add_ok ?os)
         (path_dir ?os ''/app/bin/server'' # map path [Dir ''/app/templates'' ActExec])"
    by (simp add: ex_os_add_def ex_os_def Dir_def)
  have i: "loops init_world = []" "watched init_world = []" "watchers init_world = 0"
    by (simp_all add: init_world_def)
  have o: "path_dir ?os ''/app/bin/server'' = ''/app/bin''"
     "watcher_add_ok ?os = (\<lambda>d. d = ''/app/bin'')"
    by (simp_all add: ex_os_add_def ex_os_def)
  from watch_failure_after_loop_started [OF h1 h2 h3 h4, of init_world]
  have "fst (Do ?os [Dir ''templates'' ActExec] init_world)
       = Failed (CannotAddToWatcher ''/app/templates'')
   \<and> loops (snd (Do ?os [Dir ''templates'' ActExec] init_world))
       = [(0, [Dir ''/app/templates'' ActExec])]
   \<and> watched (snd (Do ?os [Dir ''templates'' ActExec] init_world)) = [(0, ''/app/bin'')]"
    by (simp add: i o Dir_def)
  with h1 h2 h3 h4 show ?thesis by blast
qed

text \<open>
  C2 as the specification words it fails: adding \<^verbatim>\<open>/app/templates\<close> fails, \<open>Do\<close>
  returns the error, and the event loop of watcher 0 runs, with \<^verbatim>\<open>/app/bin\<close> watched.
\<close>

theorem watch_failure_loop_running_counterexample:
  "\<not> watcher_add_ok ex_os_add ''/app/templates''
   \<and> Do ex_os_add [Dir ''templates'' (ActUser ''reloadTemplates'')] init_world
     = (Failed (CannotAddToWatcher ''/app/templates''),
        init_world\<lparr>binSelf := ''/app/bin/server'', closeWatcher := Some 0, watchers := 1,
          open_watchers := [0], watched := [(0, ''/app/bin'')],
          loops := [(0, [\<lparr>path = ''/app/templates'', cb = ActUser ''reloadTemplates''\<rparr>])]\<rparr>)"
  by (simp add: ex_os_add_def ex_defs)

section \<open>Exec\<close>

text \<open>
  C8. \<open>Exec\<close> never returns. With an empty \<open>binSelf\<close> it calls \<open>self\<close> and panics
  with \<^verbatim>\<open>cannot restart: cannot find self\<close> on its error. With a name, from \<open>binSelf\<close>
  or fresh from \<open>self\<close>, it closes the watcher of \<open>closeWatcher\<close>, if one is set, and
  after that calls \<^verbatim>\<open>syscall.Exec\<close> once, with the name, the name followed by
  \<^verbatim>\<open>os.Args[1:]\<close>, and the environment; the process is replaced if the call succeeds,
  and panics with \<^verbatim>\<open>cannot restart\<close> if it fails. (On an empty \<^verbatim>\<open>os.Args\<close> it panics
  on the index.)
\<close>

theorem Exec_never_returns:
  "fst (Exec os w) \<noteq> Returned
   \<and> (args os = [] \<longrightarrow> fst (Exec os w) = Panicked IndexOutOfRange)
   \<and> (binSelf w = [] \<and> self os = Err e \<longrightarrow> Exec os w = (Panicked CannotFindSelf, w))
   \<and> ((binSelf w \<noteq> [] \<and> name = binSelf w \<or> binSelf w = [] \<and> self os = Ok name)
        \<and> args os = a0 # rest \<longrightarrow>
        trace (snd (Exec os w)) =
          trace w @ (case closeWatcher w of None \<Rightarrow> [] | Some wid \<Rightarrow> [WatcherClose wid])
                  @ [SyscallExec name (name # rest) (environ os)]
        \<and> (\<forall>wid. closeWatcher w = Some wid \<longrightarrow> wid \<notin> set (open_watchers (snd (Exec os w))))
        \<and> fst (Exec os w) =
            (if syscall_exec_ok os name then Replaced name (name # rest) (environ os)
             else Panicked CannotRestart))"
  by (cases "closeWatcher w")
     (auto simp: Exec_def exec_name_def self_def Let_def emit_def close_watcher_def
        split: result.splits list.splits if_splits option.splits)

theorem Exec_never_returns_witness:
  "binSelf (ex_started ''linux'' []) = ''/app/bin/server''
   \<and> args ex_os_noexec = [''/app/bin/server'', ''-v'']
   \<and> closeWatcher (ex_started ''linux'' []) = Some 0
   \<and> \<not> syscall_exec_ok ex_os_noexec ''/app/bin/server''
   \<and> trace (snd (Exec ex_os_noexec (ex_started ''linux'' [])))
       = [Log (Restarting ''./bin/server'' []), WatcherClose 0,
          SyscallExec ''/app/bin/server'' [''/app/bin/server'', ''-v''] [''HOME=/root'']]
   \<and> 0 \<notin> set (open_watchers (snd (Exec ex_os_noexec (ex_started ''linux'' []))))
   \<and> fst (Exec ex_os_noexec (ex_started ''linux'' [])) = Panicked CannotRestart
   \<and> binSelf init_world = [] \<and> self ex_os_relative = Err (CannotGetPathToBinary ''server'')
   \<and> Exec ex_os_relative init_world = (Panicked CannotFindSelf, init_world)"
proof -
  let ?w = "ex_started ''linux'' []"
  have b: "binSelf ?w = ''/app/bin/server''" "closeWatcher ?w = Some 0"
    by (simp_all add: ex_started_linux)
  have a: "args ex_os_noexec = ''/app/bin/server'' # [''-v'']"
    by (simp add: ex_os_noexec_def ex_os_def)
  have n: "\<not> syscall_exec_ok ex_os_noexec ''/app/bin/server''"
     "environ ex_os_noexec = [''HOME=/root'']"
    by (simp_all add: ex_os_noexec_def ex_os_def)
  have i: "binSelf init_world = []" by (simp add: init_world_def)
  have s: "self ex_os_relative = Err (CannotGetPathToBinary ''server'')"
    by (simp add: ex_os_relative_def ex_os_def self_def)
  have h: "(binSelf ?w \<noteq> [] \<and> ''/app/bin/server'' = binSelf ?w
            \<or> binSelf ?w = [] \<and> self ex_os_noexec = Ok ''/app/bin/server'')
           \<and> args ex_os_noexec = ''/app/bin/server'' # [''-v'']"
    using a by (simp add: b)
  note D = Exec_never_returns [of ex_os_noexec ?w CannotSetupWatcher "''/app/bin/server''"
      "''/app/bin/server''" "[''-v'']", THEN conjunct2, THEN conjunct2, THEN conjunct2,
      THEN mp, OF h]
  have t: "trace ?w = [Log (Restarting ''./bin/server'' [])]" by (simp add: ex_started_linux)
  from D have 1: "trace (snd (Exec ex_os_noexec ?w))
       = [Log (Restarting ''./bin/server'' []), WatcherClose 0,
          SyscallExec ''/app/bin/server'' [''/app/bin/server'', ''-v''] [''HOME=/root'']]
   \<and> 0 \<notin> set (open_watchers (snd (Exec ex_os_noexec ?w)))
   \<and> fst (Exec ex_os_noexec ?w) = Panicked CannotRestart"
    by (simp add: b n t)
  have 2: "Exec ex_os_relative init_world = (Panicked CannotFindSelf, init_world)"
    using Exec_never_returns [of ex_os_relative init_world "CannotGetPathToBinary ''server''",
      THEN conjunct2, THEN conjunct2, THEN conjunct1] i s by simp
  from 1 2 b a n i s show ?thesis by simp
qed

section \<open>An event on the binary\<close>



lemma ex_started_exec_first:
  "ex_started ''linux'' ex_exec_first =
     \<lparr>binSelf = ''/app/bin/server'', closeWatcher = Some 0, RestartExec = ActExec,
      watchers = 1, open_watchers = [0],
      watched = [(0, ''/app/bin''), (0, ''/app''), (0, ''/app/templates'')],
      loops = [(0, ex_exec_first)],
      trace = [Log (Restarting ''./bin/server'' [''./'', ''./templates''])]\<rparr>"
  by (simp add: ex_exec_first_def ex_defs)

lemma ex_started_siblings_exec:
  "ex_started ''linux'' ex_siblings_exec =
     \<lparr>binSelf = ''/app/bin/server'', closeWatcher = Some 0, RestartExec = ActExec,
      watchers = 1, open_watchers = [0],
      watched = [(0, ''/app/bin''), (0, ''/a/bc''), (0, ''/a/b'')],
      loops = [(0, ex_siblings_exec)],
      trace = [Log (Restarting ''./bin/server'' [''/a/bc'', ''/a/b''])]\<rparr>"
  by (simp add: ex_siblings_exec_def ex_defs)




section \<open>An event under additional directories\<close>

text \<open>
  C6, as the code has it. For a triggering event whose path has the path of a
  registered additional directory as a prefix, the callback of that directory is
  invoked right after a sleep of 100 ms when the loop over \<^verbatim>\<open>additional\<close> gets to the
  directory: the restart action was not invoked for the event (its path is not the
  path of the binary) or has returned, and the callback of every matching directory
  registered before has returned. An event that matches two registered directories
  then invokes both callbacks, in the order of registration. A callback that does not
  return (\<^verbatim>\<open>reload.Exec\<close>, \<^verbatim>\<open>nil\<close>) ends the handling of the event with the process:
  no callback of a later directory is invoked; and when the event is on the binary and
  the restart action does not return, no callback is invoked at all.
\<close>

theorem matching_callbacks_when_reached:
  assumes trig: "trigger (goos os) (Op ev)"
  shows "((Name ev \<noteq> binSelf w \<or> is_user (RestartExec w))
          \<and> additional = pre @ a # post \<and> matches ev a
          \<and> (\<forall>c\<in>set pre. matches ev c \<longrightarrow> is_user (cb c)) \<longrightarrow>
            (\<exists>es'. trace (snd (handle_event os additional ev w))
               = trace w @ warning os
                   @ (if Name ev = binSelf w then [Sleep 100, InvokeRestart] else [])
                   @ calls ev pre @ [Sleep 100, InvokeCallback a] @ es'))
       \<and> ((Name ev \<noteq> binSelf w \<or> is_user (RestartExec w))
          \<and> additional = pre @ a # mid @ b # post \<and> matches ev a \<and> matches ev b
          \<and> (\<forall>c\<in>set (pre @ a # mid). matches ev c \<longrightarrow> is_user (cb c)) \<longrightarrow>
            (\<exists>es'. trace (snd (handle_event os additional ev w))
               = trace w @ warning os
                   @ (if Name ev = binSelf w then [Sleep 100, InvokeRestart] else [])
                   @ calls ev pre @ [Sleep 100, InvokeCallback a]
                   @ calls ev mid @ [Sleep 100, InvokeCallback b] @ es'))
       \<and> ((Name ev \<noteq> binSelf w \<or> is_user (RestartExec w))
          \<and> additional = pre @ a # post \<and> matches ev a
          \<and> (\<forall>c\<in>set pre. matches ev c \<longrightarrow> is_user (cb c)) \<and> \<not> is_user (cb a) \<longrightarrow>
            fst (handle_event os additional ev w) \<noteq> Returned
            \<and> (\<exists>es. trace (snd (handle_event os additional ev w))
                 = trace w @ warning os
                     @ (if Name ev = binSelf w then [Sleep 100, InvokeRestart] else [])
                     @ calls ev pre @ [Sleep 100, InvokeCallback a] @ es
                \<and> (\<forall>d. InvokeCallback d \<notin> set es)))
       \<and> (Name ev = binSelf w \<and> \<not> is_user (RestartExec w) \<longrightarrow>
            fst (handle_event os additional ev w) \<noteq> Returned
            \<and> (\<exists>es. trace (snd (handle_event os additional ev w))
                 = trace w @ warning os @ [Sleep 100, InvokeRestart] @ es
                \<and> (\<forall>d. InvokeCallback d \<notin> set es)))"
proof (intro conjI impI)
  let ?r = "if Name ev = binSelf w then [Sleep 100, InvokeRestart] else []"
  {
    assume A: "(Name ev \<noteq> binSelf w \<or> is_user (RestartExec w))
          \<and> additional = pre @ a # post \<and> matches ev a
          \<and> (\<forall>c\<in>set pre. matches ev c \<longrightarrow> is_user (cb c))"
    then have alive: "Name ev \<noteq> binSelf w \<or> is_user (RestartExec w)"
      and m: "matches ev a" and pre: "\<forall>c\<in>set pre. matches ev c \<longrightarrow> is_user (cb c)"
      by simp_all
    from callback_reached [OF trig alive m pre, of post] A
    show "\<exists>es'. trace (snd (handle_event os additional ev w))
               = trace w @ warning os @ ?r @ calls ev pre @ [Sleep 100, InvokeCallback a] @ es'"
      by simp
  }
  {
    assume B: "(Name ev \<noteq> binSelf w \<or> is_user (RestartExec w))
          \<and> additional = pre @ a # mid @ b # post \<and> matches ev a \<and> matches ev b
          \<and> (\<forall>c\<in>set (pre @ a # mid). matches ev c \<longrightarrow> is_user (cb c))"
    then have alive: "Name ev \<noteq> binSelf w \<or> is_user (RestartExec w)"
      and m: "matches ev b"
      and pre: "\<forall>c\<in>set (pre @ a # mid). matches ev c \<longrightarrow> is_user (cb c)"
      by simp_all
    have c: "calls ev (pre @ a # mid)
        = calls ev pre @ [Sleep 100, InvokeCallback a] @ calls ev mid"
      using B by (simp add: calls_def)
    from callback_reached [OF trig alive m pre, of post] B
    show "\<exists>es'. trace (snd (handle_event os additional ev w))
               = trace w @ warning os @ ?r @ calls ev pre @ [Sleep 100, InvokeCallback a]
                   @ calls ev mid @ [Sleep 100, InvokeCallback b] @ es'"
      by (simp add: c)
  }
  {
    assume C: "(Name ev \<noteq> binSelf w \<or> is_user (RestartExec w))
          \<and> additional = pre @ a # post \<and> matches ev a
          \<and> (\<forall>c\<in>set pre. matches ev c \<longrightarrow> is_user (cb c)) \<and> \<not> is_user (cb a)"
    then have alive: "Name ev \<noteq> binSelf w \<or> is_user (RestartExec w)"
      and m: "matches ev a" and pre: "\<forall>c\<in>set pre. matches ev c \<longrightarrow> is_user (cb c)"
      and nu: "\<not> is_user (cb a)"
      by simp_all
    note S = callback_stops [OF trig alive m pre nu, of post]
    from S C show "fst (handle_event os additional ev w) \<noteq> Returned" by simp
    from S obtain es where es: "trace (snd (handle_event os (pre @ a # post) ev w))
        = trace w @ warning os @ ?r @ calls ev pre @ [Sleep 100, InvokeCallback a] @ es"
        "list_all exec_effect es" by blast
    then have "\<forall>d. InvokeCallback d \<notin> set es" using exec_effect_no_callback by blast
    with es C show "\<exists>es. trace (snd (handle_event os additional ev w))
                 = trace w @ warning os @ ?r @ calls ev pre @ [Sleep 100, InvokeCallback a] @ es
                \<and> (\<forall>d. InvokeCallback d \<notin> set es)" by auto
  }
  {
    assume D: "Name ev = binSelf w \<and> \<not> is_user (RestartExec w)"
    then have name: "Name ev = binSelf w" and nu: "\<not> is_user (RestartExec w)" by simp_all
    note S = restart_stops [OF trig name nu, of additional]
    from S show "fst (handle_event os additional ev w) \<noteq> Returned" by simp
    from S obtain es where es: "trace (snd (handle_event os additional ev w))
        = trace w @ warning os @ [Sleep 100, InvokeRestart] @ es" "list_all exec_effect es"
      by blast
    then have "\<forall>d. InvokeCallback d \<notin> set es" using exec_effect_no_callback by blast
    with es show "\<exists>es. trace (snd (handle_event os additional ev w))
                 = trace w @ warning os @ [Sleep 100, InvokeRestart] @ es
                \<and> (\<forall>d. InvokeCallback d \<notin> set es)" by blast
  }
qed

theorem matching_callbacks_when_reached_witness:
  "trigger (goos (ex_os ''linux'')) (Op \<lparr>Name = ''/app/templates/index.html'', Op = Write\<rparr>)
   \<and> Name \<lparr>Name = ''/app/templates/index.html'', Op = Write\<rparr> \<noteq> binSelf (ex_started ''linux'' ex_two)
   \<and> ex_two = [] @ Dir ''/app'' (ActUser ''rebuild'') # []
                 @ Dir ''/app/templates'' (ActUser ''reloadTemplates'') # []
   \<and> matches \<lparr>Name = ''/app/templates/index.html'', Op = Write\<rparr> (Dir ''/app'' (ActUser ''rebuild''))
   \<and> matches \<lparr>Name = ''/app/templates/index.html'', Op = Write\<rparr>
        (Dir ''/app/templates'' (ActUser ''reloadTemplates''))
   \<and> (\<exists>es'. trace (snd (handle_event (ex_os ''linux'') ex_two
           \<lparr>Name = ''/app/templates/index.html'', Op = Write\<rparr> (ex_started ''linux'' ex_two)))
        = trace (ex_started ''linux'' ex_two)
            @ [Sleep 100, InvokeCallback (Dir ''/app'' (ActUser ''rebuild'')),
               Sleep 100, InvokeCallback (Dir ''/app/templates'' (ActUser ''reloadTemplates''))]
            @ es')
   \<and> handle_event (ex_os ''linux'') ex_two
           \<lparr>Name = ''/app/templates/index.html'', Op = Write\<rparr> (ex_started ''linux'' ex_two)
       = (Returned, emit [Sleep 100, InvokeCallback (Dir ''/app'' (ActUser ''rebuild'')),
            Sleep 100, InvokeCallback (Dir ''/app/templates'' (ActUser ''reloadTemplates''))]
            (ex_started ''linux'' ex_two))
   \<and> Name \<lparr>Name = ''/app/templates/index.html'', Op = Write\<rparr>
        \<noteq> binSelf (ex_started ''linux'' ex_exec_first)
   \<and> ex_exec_first = [] @ Dir ''/app'' ActExec
                        # [Dir ''/app/templates'' (ActUser ''reloadTemplates'')]
   \<and> \<not> is_user (cb (Dir ''/app'' ActExec))
   \<and> fst (handle_event (ex_os ''linux'') ex_exec_first
           \<lparr>Name = ''/app/templates/index.html'', Op = Write\<rparr>
           (ex_started ''linux'' ex_exec_first)) \<noteq> Returned
   \<and> (\<exists>es. trace (snd (handle_event (ex_os ''linux'') ex_exec_first
           \<lparr>Name = ''/app/templates/index.html'', Op = Write\<rparr>
           (ex_started ''linux'' ex_exec_first)))
        = trace (ex_started ''linux'' ex_exec_first)
            @ [Sleep 100, InvokeCallback (Dir ''/app'' ActExec)] @ es
        \<and> (\<forall>d. InvokeCallback d \<notin> set es))"
proof -
  let ?os = "ex_os ''linux''"
  let ?ev = "\<lparr>Name = ''/app/templates/index.html'', Op = Write\<rparr>"
  let ?w = "ex_started ''linux'' ex_two"
  let ?v = "ex_started ''linux'' ex_exec_first"
  let ?a = "Dir ''/app'' (ActUser ''rebuild'')"
  let ?b = "Dir ''/app/templates'' (ActUser ''reloadTemplates'')"
  let ?x = "Dir ''/app'' ActExec"
  have t: "trigger (goos ?os) (Op ?ev)" by (simp add: ex_os_def trigger_def bsd_def)
  have bs: "binSelf ?w = ''/app/bin/server''" by (simp add: ex_two_def ex_defs)
  then have n: "Name ?ev \<noteq> binSelf ?w" by simp
  then have alive: "Name ?ev \<noteq> binSelf ?w \<or> is_user (RestartExec ?w)" by simp
  have l: "ex_two = [] @ ?a # [] @ ?b # []" by (simp add: ex_two_def)
  have m: "matches ?ev ?a" "matches ?ev ?b" "matches ?ev ?x" by (simp_all add: matches_def Dir_def)
  have u: "\<forall>c\<in>set ([] @ ?a # []). matches ?ev c \<longrightarrow> is_user (cb c)" by (simp add: Dir_def)
  have wn: "warning ?os = []" by (simp add: warning_def ex_os_def untested_def bsd_def)
  have c0: "calls ?ev [] = []" by (simp add: calls_def)
  from matching_callbacks_when_reached [OF t, of ?w ex_two "[]" ?a "[]" "[]" ?b,
      THEN conjunct2, THEN conjunct1, THEN mp,
      OF conjI [OF alive conjI [OF l conjI [OF m(1) conjI [OF m(2) u]]]]] n
  have T: "\<exists>es'. trace (snd (handle_event ?os ex_two ?ev ?w))
        = trace ?w @ [Sleep 100, InvokeCallback ?a, Sleep 100, InvokeCallback ?b] @ es'"
    by (simp add: wn c0)
  have e: "handle_event ?os ex_two ?ev ?w
       = (Returned, emit [Sleep 100, InvokeCallback ?a, Sleep 100, InvokeCallback ?b] ?w)"
    using t n by (simp add: handle_event_def Let_def run_restart_def ex_two_def matches_def
        Dir_def untested_def bsd_def emit_def ex_os_def)
  have bv: "binSelf ?v = ''/app/bin/server''" by (simp add: ex_started_exec_first)
  then have nv: "Name ?ev \<noteq> binSelf ?v" by simp
  then have alivev: "Name ?ev \<noteq> binSelf ?v \<or> is_user (RestartExec ?v)" by simp
  have lv: "ex_exec_first = [] @ ?x # [?b]" by (simp add: ex_exec_first_def)
  have pv: "\<forall>c\<in>set []. matches ?ev c \<longrightarrow> is_user (cb c)" by simp
  have nux: "\<not> is_user (cb ?x)" by (simp add: Dir_def)
  from matching_callbacks_when_reached [OF t, of ?v ex_exec_first "[]" ?x "[?b]",
      THEN conjunct2, THEN conjunct2, THEN conjunct1, THEN mp,
      OF conjI [OF alivev conjI [OF lv conjI [OF m(3) conjI [OF pv nux]]]]] nv
  have S: "fst (handle_event ?os ex_exec_first ?ev ?v) \<noteq> Returned
     \<and> (\<exists>es. trace (snd (handle_event ?os ex_exec_first ?ev ?v))
          = trace ?v @ [Sleep 100, InvokeCallback ?x] @ es
         \<and> (\<forall>d. InvokeCallback d \<notin> set es))"
    by (simp add: wn c0)
  from t n l m T e nv lv nux S show ?thesis by blast
qed

text \<open>
  C6 as the specification words it fails: \<^verbatim>\<open>/app\<close> is registered with \<^verbatim>\<open>reload.Exec\<close>
  before \<^verbatim>\<open>/app/templates\<close>; a write event under \<^verbatim>\<open>/app/templates\<close> matches both,
  the process is replaced in the first callback, and the callback of
  \<^verbatim>\<open>/app/templates\<close> is not invoked.
\<close>

theorem later_callback_not_invoked_counterexample:
  "trigger (goos (ex_os ''linux'')) (Op \<lparr>Name = ''/app/templates/index.html'', Op = Write\<rparr>)
   \<and> loops (ex_started ''linux'' ex_exec_first) = [(0, ex_exec_first)]
   \<and> ex_exec_first = [Dir ''/app'' ActExec, Dir ''/app/templates'' (ActUser ''reloadTemplates'')]
   \<and> matches \<lparr>Name = ''/app/templates/index.html'', Op = Write\<rparr>
        (Dir ''/app/templates'' (ActUser ''reloadTemplates''))
   \<and> fst (handle_event (ex_os ''linux'') ex_exec_first
        \<lparr>Name = ''/app/templates/index.html'', Op = Write\<rparr> (ex_started ''linux'' ex_exec_first))
       = Replaced ''/app/bin/server'' [''/app/bin/server'', ''-v''] [''HOME=/root'']
   \<and> trace (snd (handle_event (ex_os ''linux'') ex_exec_first
        \<lparr>Name = ''/app/templates/index.html'', Op = Write\<rparr> (ex_started ''linux'' ex_exec_first)))
       = [Log (Restarting ''./bin/server'' [''./'', ''./templates'']),
          Sleep 100, InvokeCallback (Dir ''/app'' ActExec), WatcherClose 0,
          SyscallExec ''/app/bin/server'' [''/app/bin/server'', ''-v''] [''HOME=/root'']]
   \<and> InvokeCallback (Dir ''/app/templates'' (ActUser ''reloadTemplates''))
       \<notin> set (trace (snd (handle_event (ex_os ''linux'') ex_exec_first
        \<lparr>Name = ''/app/templates/index.html'', Op = Write\<rparr>
        (ex_started ''linux'' ex_exec_first))))"
  by (simp add: ex_started_exec_first) (simp add: ex_exec_first_def ex_defs)

text \<open>
  C9, as the code has it. A callback matches by \<^verbatim>\<open>strings.HasPrefix\<close> alone: the
  event path begins with the characters of the registered path, whatever follows them.
  For a triggering event that is not on the binary, or whose restart action has
  returned: when all matching callbacks return, the callbacks invoked are exactly the
  callbacks of the registered directories whose path begins the event path; in general
  the callback of such a directory is invoked when the callbacks of the matching
  directories registered before it have returned. With \<^verbatim>\<open>/a/b\<close> and \<^verbatim>\<open>/a/bc\<close>
  registered, an event from \<^verbatim>\<open>/a/bc\<close> invokes the callback of \<^verbatim>\<open>/a/b\<close> too, unless
  \<^verbatim>\<open>/a/bc\<close> is registered first with a callback that does not return: then the
  handling ends in that callback and the callback of \<^verbatim>\<open>/a/b\<close> is not invoked.
\<close>

theorem prefix_match_without_separator:
  assumes trig: "trigger (goos os) (Op ev)"
      and alive: "Name ev \<noteq> binSelf w \<or> is_user (RestartExec w)"
  shows "((\<forall>c\<in>set additional. matches ev c \<longrightarrow> is_user (cb c)) \<longrightarrow>
           (InvokeCallback a
              \<in> set (drop (length (trace w)) (trace (snd (handle_event os additional ev w))))
            \<longleftrightarrow> a \<in> set additional \<and> (\<exists>s. Name ev = path a @ s)))
     \<and> (additional = pre @ a # post \<and> Name ev = path a @ s
          \<and> (\<forall>c\<in>set pre. matches ev c \<longrightarrow> is_user (cb c)) \<longrightarrow>
         (\<exists>es'. trace (snd (handle_event os additional ev w))
            = trace w @ warning os
                @ (if Name ev = binSelf w then [Sleep 100, InvokeRestart] else [])
                @ calls ev pre @ [Sleep 100, InvokeCallback a] @ es'))
     \<and> (prefix ''/a/bc'' (Name ev)
          \<and> (additional = [Dir ''/a/b'' f, Dir ''/a/bc'' g]
              \<or> additional = [Dir ''/a/bc'' g, Dir ''/a/b'' f] \<and> is_user g) \<longrightarrow>
         (\<exists>es es'. trace (snd (handle_event os additional ev w))
            = trace w @ es @ [Sleep 100, InvokeCallback (Dir ''/a/b'' f)] @ es'))
     \<and> (prefix ''/a/bc'' (Name ev) \<and> additional = [Dir ''/a/bc'' g, Dir ''/a/b'' f]
          \<and> \<not> is_user g \<longrightarrow>
         fst (handle_event os additional ev w) \<noteq> Returned
         \<and> (\<exists>es. trace (snd (handle_event os additional ev w))
              = trace w @ warning os
                  @ (if Name ev = binSelf w then [Sleep 100, InvokeRestart] else [])
                  @ [Sleep 100, InvokeCallback (Dir ''/a/bc'' g)] @ es
             \<and> (\<forall>d. InvokeCallback d \<notin> set es)))"
proof (intro conjI impI)
  let ?r = "if Name ev = binSelf w then [Sleep 100, InvokeRestart] else []"
  {
    assume all: "\<forall>c\<in>set additional. matches ev c \<longrightarrow> is_user (cb c)"
    have "trace (snd (handle_event os additional ev w))
        = trace w @ (warning os @ ?r @ calls ev additional)"
      using handle_event_all_users [OF trig alive all] by (simp add: trace_emit)
    then have "drop (length (trace w)) (trace (snd (handle_event os additional ev w)))
        = warning os @ ?r @ calls ev additional" by simp
    moreover have "InvokeCallback a \<notin> set (warning os @ ?r)" by (simp add: warning_def)
    ultimately show "InvokeCallback a
              \<in> set (drop (length (trace w)) (trace (snd (handle_event os additional ev w))))
            \<longleftrightarrow> a \<in> set additional \<and> (\<exists>s. Name ev = path a @ s)"
      using InvokeCallback_calls [of a ev additional] matches_iff [of ev a] by simp
  }
  {
    assume A: "additional = pre @ a # post \<and> Name ev = path a @ s
          \<and> (\<forall>c\<in>set pre. matches ev c \<longrightarrow> is_user (cb c))"
    then have m: "matches ev a" using matches_iff by blast
    from A have pre: "\<forall>c\<in>set pre. matches ev c \<longrightarrow> is_user (cb c)" by simp
    from callback_reached [OF trig alive m pre, of post] A
    show "\<exists>es'. trace (snd (handle_event os additional ev w))
            = trace w @ warning os @ ?r @ calls ev pre @ [Sleep 100, InvokeCallback a] @ es'"
      by simp
  }
  {
    assume B: "prefix ''/a/bc'' (Name ev)
          \<and> (additional = [Dir ''/a/b'' f, Dir ''/a/bc'' g]
              \<or> additional = [Dir ''/a/bc'' g, Dir ''/a/b'' f] \<and> is_user g)"
    then obtain s where "Name ev = ''/a/bc'' @ s" by (auto simp: prefix_def)
    then have m: "matches ev (Dir ''/a/b'' f)" by (simp add: matches_def Dir_def)
    from B consider (first) "additional = [] @ Dir ''/a/b'' f # [Dir ''/a/bc'' g]"
      | (second) "additional = [Dir ''/a/bc'' g] @ Dir ''/a/b'' f # []" "is_user g"
      by auto
    then show "\<exists>es es'. trace (snd (handle_event os additional ev w))
            = trace w @ es @ [Sleep 100, InvokeCallback (Dir ''/a/b'' f)] @ es'"
    proof cases
      case first
      have pre: "\<forall>c\<in>set []. matches ev c \<longrightarrow> is_user (cb c)" by simp
      obtain es' where "trace (snd (handle_event os ([] @ Dir ''/a/b'' f # [Dir ''/a/bc'' g]) ev w))
          = trace w @ warning os @ ?r @ calls ev []
              @ [Sleep 100, InvokeCallback (Dir ''/a/b'' f)] @ es'"
        using callback_reached [OF trig alive m pre] by blast
      then have "trace (snd (handle_event os additional ev w))
          = trace w @ (warning os @ ?r @ calls ev [])
              @ [Sleep 100, InvokeCallback (Dir ''/a/b'' f)] @ es'"
        using first by simp
      then show ?thesis by blast
    next
      case second
      have pre: "\<forall>c\<in>set [Dir ''/a/bc'' g]. matches ev c \<longrightarrow> is_user (cb c)"
        using second(2) by (simp add: Dir_def)
      obtain es' where
        "trace (snd (handle_event os ([Dir ''/a/bc'' g] @ Dir ''/a/b'' f # []) ev w))
          = trace w @ warning os @ ?r @ calls ev [Dir ''/a/bc'' g]
              @ [Sleep 100, InvokeCallback (Dir ''/a/b'' f)] @ es'"
        using callback_reached [OF trig alive m pre] by blast
      then have "trace (snd (handle_event os additional ev w))
          = trace w @ (warning os @ ?r @ calls ev [Dir ''/a/bc'' g])
              @ [Sleep 100, InvokeCallback (Dir ''/a/b'' f)] @ es'"
        using second(1) by simp
      then show ?thesis by blast
    qed
  }
  {
    assume C: "prefix ''/a/bc'' (Name ev) \<and> additional = [Dir ''/a/bc'' g, Dir ''/a/b'' f]
          \<and> \<not> is_user g"
    then have m: "matches ev (Dir ''/a/bc'' g)" by (simp add: matches_def Dir_def)
    have pre: "\<forall>c\<in>set []. matches ev c \<longrightarrow> is_user (cb c)" by simp
    have nu: "\<not> is_user (cb (Dir ''/a/bc'' g))" using C by (simp add: Dir_def)
    have l: "additional = [] @ Dir ''/a/bc'' g # [Dir ''/a/b'' f]" using C by simp
    have c0: "calls ev [] = []" by (simp add: calls_def)
    note S = callback_stops [OF trig alive m pre nu, of "[Dir ''/a/b'' f]"]
    from S l show "fst (handle_event os additional ev w) \<noteq> Returned" by simp
    from S obtain es where es:
      "trace (snd (handle_event os ([] @ Dir ''/a/bc'' g # [Dir ''/a/b'' f]) ev w))
        = trace w @ warning os @ ?r @ calls ev [] @ [Sleep 100, InvokeCallback (Dir ''/a/bc'' g)] @ es"
      "list_all exec_effect es" by blast
    then have "\<forall>d. InvokeCallback d \<notin> set es" using exec_effect_no_callback by blast
    with es l show "\<exists>es. trace (snd (handle_event os additional ev w))
              = trace w @ warning os @ ?r @ [Sleep 100, InvokeCallback (Dir ''/a/bc'' g)] @ es
             \<and> (\<forall>d. InvokeCallback d \<notin> set es)" by (auto simp: c0)
  }
qed

theorem prefix_match_without_separator_witness:
  "trigger (goos (ex_os ''darwin'')) (Op \<lparr>Name = ''/a/bc/report.txt'', Op = Create\<rparr>)
   \<and> Name \<lparr>Name = ''/a/bc/report.txt'', Op = Create\<rparr> \<noteq> binSelf (ex_started ''darwin'' ex_siblings)
   \<and> ex_siblings = [Dir ''/a/b'' (ActUser ''onB''), Dir ''/a/bc'' (ActUser ''onBC'')]
   \<and> prefix ''/a/bc'' (Name \<lparr>Name = ''/a/bc/report.txt'', Op = Create\<rparr>)
   \<and> is_user (cb (Dir ''/a/b'' (ActUser ''onB''))) \<and> is_user (cb (Dir ''/a/bc'' (ActUser ''onBC'')))
   \<and> InvokeCallback (Dir ''/a/b'' (ActUser ''onB''))
        \<in> set (drop (length (trace (ex_started ''darwin'' ex_siblings)))
             (trace (snd (handle_event (ex_os ''darwin'') ex_siblings
                \<lparr>Name = ''/a/bc/report.txt'', Op = Create\<rparr> (ex_started ''darwin'' ex_siblings)))))
   \<and> (\<exists>es es'. trace (snd (handle_event (ex_os ''darwin'') ex_siblings
           \<lparr>Name = ''/a/bc/report.txt'', Op = Create\<rparr> (ex_started ''darwin'' ex_siblings)))
        = trace (ex_started ''darwin'' ex_siblings) @ es
            @ [Sleep 100, InvokeCallback (Dir ''/a/b'' (ActUser ''onB''))] @ es')
   \<and> handle_event (ex_os ''darwin'') ex_siblings
           \<lparr>Name = ''/a/bc/report.txt'', Op = Create\<rparr> (ex_started ''darwin'' ex_siblings)
       = (Returned, emit [Sleep 100, InvokeCallback (Dir ''/a/b'' (ActUser ''onB'')),
            Sleep 100, InvokeCallback (Dir ''/a/bc'' (ActUser ''onBC''))]
            (ex_started ''darwin'' ex_siblings))
   \<and> trigger (goos (ex_os ''linux'')) (Op \<lparr>Name = ''/a/bc/report.txt'', Op = Write\<rparr>)
   \<and> Name \<lparr>Name = ''/a/bc/report.txt'', Op = Write\<rparr>
        \<noteq> binSelf (ex_started ''linux'' ex_siblings_exec)
   \<and> ex_siblings_exec = [Dir ''/a/bc'' ActExec, Dir ''/a/b'' (ActUser ''onB'')]
   \<and> \<not> is_user ActExec
   \<and> fst (handle_event (ex_os ''linux'') ex_siblings_exec
           \<lparr>Name = ''/a/bc/report.txt'', Op = Write\<rparr>
           (ex_started ''linux'' ex_siblings_exec)) \<noteq> Returned"
proof -
  let ?os = "ex_os ''darwin''"
  let ?ev = "\<lparr>Name = ''/a/bc/report.txt'', Op = Create\<rparr>"
  let ?w = "ex_started ''darwin'' ex_siblings"
  let ?v = "ex_started ''linux'' ex_siblings_exec"
  let ?a = "Dir ''/a/b'' (ActUser ''onB'')"
  let ?b = "Dir ''/a/bc'' (ActUser ''onBC'')"
  have t: "trigger (goos ?os) (Op ?ev)" by (simp add: ex_os_def trigger_def bsd_def)
  have bs: "binSelf ?w = ''/app/bin/server''" by (simp add: ex_siblings_def ex_defs)
  then have n: "Name ?ev \<noteq> binSelf ?w" by simp
  then have alive: "Name ?ev \<noteq> binSelf ?w \<or> is_user (RestartExec ?w)" by simp
  have l: "ex_siblings = [?a, ?b]" by (simp add: ex_siblings_def)
  have p: "prefix ''/a/bc'' (Name ?ev)" by simp
  have all: "\<forall>c\<in>set ex_siblings. matches ?ev c \<longrightarrow> is_user (cb c)"
    by (simp add: ex_siblings_def Dir_def)
  have mem: "?a \<in> set ex_siblings \<and> (\<exists>s. Name ?ev = path ?a @ s)"
    by (simp add: ex_siblings_def Dir_def)
  from prefix_match_without_separator [OF t alive, of ex_siblings ?a, THEN conjunct1, THEN mp,
      OF all] mem
  have I: "InvokeCallback ?a
        \<in> set (drop (length (trace ?w)) (trace (snd (handle_event ?os ex_siblings ?ev ?w))))"
    by blast
  have d: "prefix ''/a/bc'' (Name ?ev)
      \<and> (ex_siblings = [Dir ''/a/b'' (ActUser ''onB''), Dir ''/a/bc'' (ActUser ''onBC'')]
          \<or> ex_siblings = [Dir ''/a/bc'' (ActUser ''onBC''), Dir ''/a/b'' (ActUser ''onB'')]
            \<and> is_user (ActUser ''onBC''))"
    using l p by blast
  note T = prefix_match_without_separator [OF t alive, of ex_siblings _ _ _ _ "ActUser ''onB''"
      "ActUser ''onBC''", THEN conjunct2, THEN conjunct2, THEN conjunct1, THEN mp, OF d]
  have e: "handle_event ?os ex_siblings ?ev ?w
       = (Returned, emit [Sleep 100, InvokeCallback ?a, Sleep 100, InvokeCallback ?b] ?w)"
    using t n by (simp add: handle_event_def Let_def run_restart_def ex_siblings_def matches_def
        Dir_def untested_def bsd_def emit_def ex_os_def)
  let ?os2 = "ex_os ''linux''"
  let ?ev2 = "\<lparr>Name = ''/a/bc/report.txt'', Op = Write\<rparr>"
  have t2: "trigger (goos ?os2) (Op ?ev2)" by (simp add: ex_os_def trigger_def bsd_def)
  have bv: "binSelf ?v = ''/app/bin/server''" by (simp add: ex_started_siblings_exec)
  then have nv: "Name ?ev2 \<noteq> binSelf ?v" by simp
  then have alivev: "Name ?ev2 \<noteq> binSelf ?v \<or> is_user (RestartExec ?v)" by simp
  have lv: "ex_siblings_exec = [Dir ''/a/bc'' ActExec, ?a]" by (simp add: ex_siblings_exec_def)
  have p2: "prefix ''/a/bc'' (Name ?ev2)" by simp
  have nu: "\<not> is_user ActExec" by simp
  from prefix_match_without_separator [OF t2 alivev, of ex_siblings_exec _ _ _ _
      "ActUser ''onB''" ActExec, THEN conjunct2, THEN conjunct2, THEN conjunct2, THEN mp,
      OF conjI [OF p2 conjI [OF lv nu]]]
  have S: "fst (handle_event ?os2 ex_siblings_exec ?ev2 ?v) \<noteq> Returned" by simp
  have us: "is_user (cb ?a)" "is_user (cb ?b)" by (simp_all add: Dir_def)
  from t n l p us I T e t2 nv lv nu S show ?thesis by blast
qed

text \<open>
  C9 as the claim words it fails: \<^verbatim>\<open>/a/bc\<close> is registered with \<^verbatim>\<open>reload.Exec\<close> before
  \<^verbatim>\<open>/a/b\<close>; the path of a write event from \<^verbatim>\<open>/a/bc\<close> begins with \<^verbatim>\<open>/a/b\<close>, the
  process is replaced in the first callback, and the callback of \<^verbatim>\<open>/a/b\<close> is not
  invoked.
\<close>

theorem prefix_callback_not_invoked_counterexample:
  "trigger (goos (ex_os ''linux'')) (Op \<lparr>Name = ''/a/bc/report.txt'', Op = Write\<rparr>)
   \<and> loops (ex_started ''linux'' ex_siblings_exec) = [(0, ex_siblings_exec)]
   \<and> ex_siblings_exec = [Dir ''/a/bc'' ActExec, Dir ''/a/b'' (ActUser ''onB'')]
   \<and> prefix (path (Dir ''/a/b'' (ActUser ''onB'')))
        (Name \<lparr>Name = ''/a/bc/report.txt'', Op = Write\<rparr>)
   \<and> fst (handle_event (ex_os ''linux'') ex_siblings_exec
        \<lparr>Name = ''/a/bc/report.txt'', Op = Write\<rparr> (ex_started ''linux'' ex_siblings_exec))
       = Replaced ''/app/bin/server'' [''/app/bin/server'', ''-v''] [''HOME=/root'']
   \<and> trace (snd (handle_event (ex_os ''linux'') ex_siblings_exec
        \<lparr>Name = ''/a/bc/report.txt'', Op = Write\<rparr> (ex_started ''linux'' ex_siblings_exec)))
       = [Log (Restarting ''./bin/server'' [''/a/bc'', ''/a/b'']),
          Sleep 100, InvokeCallback (Dir ''/a/bc'' ActExec), WatcherClose 0,
          SyscallExec ''/app/bin/server'' [''/app/bin/server'', ''-v''] [''HOME=/root'']]
   \<and> InvokeCallback (Dir ''/a/b'' (ActUser ''onB''))
       \<notin> set (trace (snd (handle_event (ex_os ''linux'') ex_siblings_exec
        \<lparr>Name = ''/a/bc/report.txt'', Op = Write\<rparr>
        (ex_started ''linux'' ex_siblings_exec))))"
  by (simp add: ex_started_siblings_exec) (simp add: ex_siblings_exec_def ex_defs)

end
